theory Spec2Isabelle
  imports Complex_Main "HOL-Library.Multiset"
begin

section \<open>Python values\<close>

text \<open>
  The scraper works on what \<^verbatim>\<open>json.loads\<close> returns: \<^verbatim>\<open>None\<close>, booleans, unbounded
  integers, floats, strings, lists and dictionaries with string keys.

  A float is a binary64 value. A finite one is given by its exact rational value; the
  sign of zero is not kept (Python's \<^verbatim>\<open>==\<close> does not see it either). A dictionary is
  an association list in insertion order, its keys distinct; a lookup takes the first
  entry of a key. A string is the list of its UTF-8 bytes, whose lexicographic order is
  the order of the code points.
\<close>

datatype pyfloat = Finite rat | PosInf | NegInf | NaN

datatype pyval =
    PNone
  | PBool bool
  | PInt int
  | PFloat pyfloat
  | PStr string
  | PList "pyval list"
  | PDict "(string \<times> pyval) list"

datatype error =
    AttributeError
  | TypeError
  | KeyError
  | ZeroDivisionError
  | OverflowError
  | JSONDecodeError
  | ClientError
  | TimeoutError
  | OSError

text \<open>Sequencing of computations that may raise: the first exception wins.\<close>

definition bindE :: "error + 'a \<Rightarrow> ('a \<Rightarrow> error + 'b) \<Rightarrow> error + 'b" where
  "bindE m f = (case m of Inl e \<Rightarrow> Inl e | Inr v \<Rightarrow> f v)"

text \<open>Truth value testing, as \<^verbatim>\<open>if x\<close>, \<^verbatim>\<open>x and y\<close> and \<^verbatim>\<open>x or y\<close> do it.\<close>

fun truthy :: "pyval \<Rightarrow> bool" where
  "truthy PNone = False"
| "truthy (PBool b) = b"
| "truthy (PInt i) = (i \<noteq> 0)"
| "truthy (PFloat f) = (f \<noteq> Finite 0)"
| "truthy (PStr s) = (s \<noteq> [])"
| "truthy (PList xs) = (xs \<noteq> [])"
| "truthy (PDict kvs) = (kvs \<noteq> [])"

definition py_or :: "pyval \<Rightarrow> pyval \<Rightarrow> pyval" where
  "py_or x y = (if truthy x then x else y)"

text \<open>
  \<^verbatim>\<open>obj.get(key, default)\<close>: only a dictionary has the method, every other value
  raises \<^verbatim>\<open>AttributeError\<close>. \<^verbatim>\<open>obj.get(key)\<close> is the call with default \<^verbatim>\<open>None\<close>.
\<close>

definition dict_get :: "(string \<times> pyval) list \<Rightarrow> string \<Rightarrow> pyval \<Rightarrow> pyval" where
  "dict_get kvs k dflt = (case map_of kvs k of None \<Rightarrow> dflt | Some v \<Rightarrow> v)"

fun py_get :: "pyval \<Rightarrow> string \<Rightarrow> pyval \<Rightarrow> error + pyval" where
  "py_get (PDict kvs) k dflt = Inr (dict_get kvs k dflt)"
| "py_get _ k dflt = Inl AttributeError"

text \<open>\<^verbatim>\<open>obj[key]\<close> with a string key.\<close>

fun py_getitem :: "pyval \<Rightarrow> string \<Rightarrow> error + pyval" where
  "py_getitem (PDict kvs) k = (case map_of kvs k of None \<Rightarrow> Inl KeyError | Some v \<Rightarrow> Inr v)"
| "py_getitem _ k = Inl TypeError"

text \<open>
  Iteration, as a \<^verbatim>\<open>for\<close> clause does it: a dictionary yields its keys, a string its
  characters (here its bytes, one string each).
\<close>

fun py_iter :: "pyval \<Rightarrow> error + pyval list" where
  "py_iter (PList xs) = Inr xs"
| "py_iter (PDict kvs) = Inr (map (\<lambda>kv. PStr (fst kv)) kvs)"
| "py_iter (PStr s) = Inr (map (\<lambda>c. PStr [c]) s)"
| "py_iter _ = Inl TypeError"

text \<open>
  \<^verbatim>\<open>f"{x}"\<close> is \<^verbatim>\<open>format(x, "")\<close>, which is \<^verbatim>\<open>str(x)\<close> for the values here. A
  string formats as itself; the text of every other value is the interpreter's and is taken
  as a parameter.
\<close>

definition py_format :: "(pyval \<Rightarrow> string) \<Rightarrow> pyval \<Rightarrow> string" where
  "py_format str_of v = (case v of PStr s \<Rightarrow> s | _ \<Rightarrow> str_of v)"

subsection \<open>Binary64 arithmetic\<close>

function bit_length :: "int \<Rightarrow> int" where
  "bit_length n = (if n \<le> 0 then 0 else 1 + bit_length (n div 2))"
  by pat_completeness auto
termination
  by (relation "measure nat") auto

declare bit_length.simps [simp del]

definition pow2 :: "int \<Rightarrow> rat" where
  "pow2 e = (if 0 \<le> e then 2 ^ nat e else 1 / 2 ^ nat (- e))"

text \<open>
  The exponent of a nonzero rational: \<open>2 ^ ilog2 x \<le> \<bar>x\<bar> < 2 ^ (ilog2 x + 1)\<close>. From 1
  on it is the bit length of the integer part, less one; below 1 it is read off the
  reciprocal.
\<close>

definition ilog2 :: "rat \<Rightarrow> int" where
  "ilog2 x =
     (if 1 \<le> \<bar>x\<bar> then bit_length \<lfloor>\<bar>x\<bar>\<rfloor> - 1
      else - bit_length (\<lceil>1 / \<bar>x\<bar>\<rceil> - 1))"

definition round_half_even :: "rat \<Rightarrow> int" where
  "round_half_even x =
     (let f = \<lfloor>x\<rfloor>; d = x - of_int f
      in if d < 1 / 2 then f
         else if 1 / 2 < d then f + 1
         else if even f then f else f + 1)"

text \<open>
  Rounding to the nearest binary64 value, ties to the even significand: 53 significant
  bits, and a spacing of at least \<open>2 ^ - 1074\<close> (the subnormal range). The exponent is
  not bounded above here; \<open>dbl_limit\<close> is the first power of two that is out of range.
\<close>

definition fl :: "rat \<Rightarrow> rat" where
  "fl x =
     (if x = 0 then 0
      else let e = max (ilog2 x - 52) (- 1074)
           in of_int (round_half_even (x / pow2 e)) * pow2 e)"

definition dbl_limit :: rat where
  "dbl_limit = 2 ^ 1024"

text \<open>The result of an IEEE operation whose exact value is \<open>x\<close>: overflow gives an infinity.\<close>

definition round_double :: "rat \<Rightarrow> pyfloat" where
  "round_double x =
     (let v = fl x
      in if dbl_limit \<le> v then PosInf else if v \<le> - dbl_limit then NegInf else Finite v)"

fun ieee_neg :: "pyfloat \<Rightarrow> pyfloat" where
  "ieee_neg (Finite x) = Finite (- x)"
| "ieee_neg PosInf = NegInf"
| "ieee_neg NegInf = PosInf"
| "ieee_neg NaN = NaN"

fun ieee_add :: "pyfloat \<Rightarrow> pyfloat \<Rightarrow> pyfloat" where
  "ieee_add NaN _ = NaN"
| "ieee_add _ NaN = NaN"
| "ieee_add PosInf NegInf = NaN"
| "ieee_add NegInf PosInf = NaN"
| "ieee_add PosInf _ = PosInf"
| "ieee_add NegInf _ = NegInf"
| "ieee_add (Finite x) PosInf = PosInf"
| "ieee_add (Finite x) NegInf = NegInf"
| "ieee_add (Finite x) (Finite y) = round_double (x + y)"

definition ieee_sub :: "pyfloat \<Rightarrow> pyfloat \<Rightarrow> pyfloat" where
  "ieee_sub a b = ieee_add a (ieee_neg b)"

definition inf_of_sign :: "bool \<Rightarrow> pyfloat" where
  "inf_of_sign negative = (if negative then NegInf else PosInf)"

fun is_negative :: "pyfloat \<Rightarrow> bool" where
  "is_negative (Finite x) = (x < 0)"
| "is_negative NegInf = True"
| "is_negative _ = False"

fun ieee_mul :: "pyfloat \<Rightarrow> pyfloat \<Rightarrow> pyfloat" where
  "ieee_mul NaN _ = NaN"
| "ieee_mul _ NaN = NaN"
| "ieee_mul (Finite x) (Finite y) = round_double (x * y)"
| "ieee_mul a b =
     (if a = Finite 0 \<or> b = Finite 0 then NaN
      else inf_of_sign (is_negative a \<noteq> is_negative b))"

text \<open>Division by a divisor that is not zero (Python raises before dividing by zero).\<close>

fun ieee_div :: "pyfloat \<Rightarrow> pyfloat \<Rightarrow> pyfloat" where
  "ieee_div NaN _ = NaN"
| "ieee_div _ NaN = NaN"
| "ieee_div (Finite x) (Finite y) = round_double (x / y)"
| "ieee_div (Finite x) _ = Finite 0"
| "ieee_div a (Finite y) = inf_of_sign (is_negative a \<noteq> (y < 0))"
| "ieee_div _ _ = NaN"

subsection \<open>Comparison\<close>

text \<open>
  The exact numeric value of a number; a boolean is the integer 0 or 1. Python compares
  integers with floats by their exact values.
\<close>

fun num_value :: "pyval \<Rightarrow> pyfloat option" where
  "num_value (PBool b) = Some (Finite (if b then 1 else 0))"
| "num_value (PInt i) = Some (Finite (of_int i))"
| "num_value (PFloat f) = Some f"
| "num_value _ = None"

fun num_gt :: "pyfloat \<Rightarrow> pyfloat \<Rightarrow> bool" where
  "num_gt NaN _ = False"
| "num_gt _ NaN = False"
| "num_gt (Finite x) (Finite y) = (y < x)"
| "num_gt PosInf b = (b \<noteq> PosInf)"
| "num_gt a NegInf = (a \<noteq> NegInf)"
| "num_gt _ _ = False"

fun str_gt :: "string \<Rightarrow> string \<Rightarrow> bool" where
  "str_gt [] t = False"
| "str_gt (a # s) [] = True"
| "str_gt (a # s) (b # t) = (if a = b then str_gt s t else (of_char b :: nat) < of_char a)"

text \<open>
  Equality of two items of a container (\<^verbatim>\<open>PyObject_RichCompareBool\<close> with \<^verbatim>\<open>Py_EQ\<close>):
  an object equals itself, and the decoder gives every \<^verbatim>\<open>NaN\<close> of a document the same
  object, so that two such items are equal here. Values of different kinds are unequal,
  numbers are compared by value.
\<close>

fun py_eq :: "pyval \<Rightarrow> pyval \<Rightarrow> bool"
  and list_eq :: "pyval list \<Rightarrow> pyval list \<Rightarrow> bool"
  and dict_sub :: "(string \<times> pyval) list \<Rightarrow> (string \<times> pyval) list \<Rightarrow> bool" where
  "py_eq PNone b = (b = PNone)"
| "py_eq (PBool x) b = (num_value b = Some (Finite (if x then 1 else 0)))"
| "py_eq (PInt i) b = (num_value b = Some (Finite (of_int i)))"
| "py_eq (PFloat f) b = (num_value b = Some f)"
| "py_eq (PStr s) b = (b = PStr s)"
| "py_eq (PList xs) b = (case b of PList ys \<Rightarrow> list_eq xs ys | _ \<Rightarrow> False)"
| "py_eq (PDict kvs) b =
     (case b of PDict kws \<Rightarrow> length kvs = length kws \<and> dict_sub kvs kws | _ \<Rightarrow> False)"
| "list_eq [] ys = (ys = [])"
| "list_eq (x # xs) ys = (case ys of [] \<Rightarrow> False | y # ys' \<Rightarrow> py_eq x y \<and> list_eq xs ys')"
| "dict_sub [] kws = True"
| "dict_sub (kv # kvs) kws =
     (case map_of kws (fst kv) of None \<Rightarrow> False | Some w \<Rightarrow> py_eq (snd kv) w \<and> dict_sub kvs kws)"

text \<open>
  \<^verbatim>\<open>a > b\<close>. Numbers compare with numbers, strings with strings, and lists with lists
  (at the first pair of items that differ, else by length); everything else raises
  \<^verbatim>\<open>TypeError\<close>.
\<close>

fun py_gt :: "pyval \<Rightarrow> pyval \<Rightarrow> error + bool"
  and list_gt :: "pyval list \<Rightarrow> pyval list \<Rightarrow> error + bool" where
  "py_gt (PStr s) b = (case b of PStr t \<Rightarrow> Inr (str_gt s t) | _ \<Rightarrow> Inl TypeError)"
| "py_gt (PList xs) b = (case b of PList ys \<Rightarrow> list_gt xs ys | _ \<Rightarrow> Inl TypeError)"
| "py_gt PNone b = Inl TypeError"
| "py_gt (PDict kvs) b = Inl TypeError"
| "py_gt (PBool x) b =
     (case num_value b of None \<Rightarrow> Inl TypeError
      | Some y \<Rightarrow> Inr (num_gt (Finite (if x then 1 else 0)) y))"
| "py_gt (PInt i) b =
     (case num_value b of None \<Rightarrow> Inl TypeError | Some y \<Rightarrow> Inr (num_gt (Finite (of_int i)) y))"
| "py_gt (PFloat f) b =
     (case num_value b of None \<Rightarrow> Inl TypeError | Some y \<Rightarrow> Inr (num_gt f y))"
| "list_gt [] ys = Inr False"
| "list_gt (x # xs) ys =
     (case ys of [] \<Rightarrow> Inr True
      | y # ys' \<Rightarrow> if py_eq x y then list_gt xs ys' else py_gt x y)"

subsection \<open>Division and rounding\<close>

text \<open>
  The conversion of a number to a float, as the float operations do it to an integer
  operand: correctly rounded, \<^verbatim>\<open>OverflowError\<close> when the integer is out of range.
\<close>

fun to_double :: "pyval \<Rightarrow> error + pyfloat" where
  "to_double (PFloat f) = Inr f"
| "to_double (PInt i) =
     (let v = fl (of_int i) in if dbl_limit \<le> \<bar>v\<bar> then Inl OverflowError else Inr (Finite v))"
| "to_double (PBool b) = Inr (Finite (if b then 1 else 0))"
| "to_double _ = Inl TypeError"

fun int_value :: "pyval \<Rightarrow> int option" where
  "int_value (PInt i) = Some i"
| "int_value (PBool b) = Some (if b then 1 else 0)"
| "int_value _ = None"

text \<open>
  \<^verbatim>\<open>a / b\<close>. Two integers give the correctly rounded quotient, or \<^verbatim>\<open>OverflowError\<close>
  when it is out of range; with a float operand both are converted and divided as floats.
\<close>

definition py_truediv :: "pyval \<Rightarrow> pyval \<Rightarrow> error + pyfloat" where
  "py_truediv a b =
     (case (int_value a, int_value b) of
        (Some i, Some j) \<Rightarrow>
          if j = 0 then Inl ZeroDivisionError
          else let v = fl (of_int i / of_int j)
               in if dbl_limit \<le> \<bar>v\<bar> then Inl OverflowError else Inr (Finite v)
      | _ \<Rightarrow>
          if num_value a = None \<or> num_value b = None then Inl TypeError
          else bindE (to_double a) (\<lambda>x.
               bindE (to_double b) (\<lambda>y.
               if y = Finite 0 then Inl ZeroDivisionError else Inr (ieee_div x y))))"

text \<open>
  \<^verbatim>\<open>round(x, 1)\<close> on a float: infinities and \<^verbatim>\<open>NaN\<close> round to themselves; a finite
  value is rounded to one decimal (ties to the even digit, on its exact value) and the
  decimal is read back as a float.
\<close>

fun py_round1 :: "pyfloat \<Rightarrow> error + pyfloat" where
  "py_round1 (Finite x) =
     (let v = fl (of_int (round_half_even (x * 10)) / 10)
      in if dbl_limit \<le> \<bar>v\<bar> then Inl OverflowError else Inr (Finite v))"
| "py_round1 f = Inr f"

section \<open>Configuration\<close>

definition PER_PAGE :: int where
  "PER_PAGE = 24"

definition CONCURRENCY :: nat where
  "CONCURRENCY = 20"

definition RETRY_LIMIT :: int where
  "RETRY_LIMIT = 3"

definition RETRY_DELAY :: int where
  "RETRY_DELAY = 2"

definition CSV_FIELDS :: "string list" where
  "CSV_FIELDS =
     [''id'', ''name'', ''brand'', ''category_id'', ''category_name'', ''status'',
      ''retail_price'', ''old_price'', ''discount_pct'', ''seller_name'', ''seller_rating'',
      ''rating_value'', ''review_count'', ''in_stock'', ''installment_enabled'',
      ''max_installment_months'', ''image_url'', ''product_url'']"

definition PRODUCT_BASE_URL :: string where
  "PRODUCT_BASE_URL = ''https://birmarket.az/products''"

section \<open>The record transformer: \<^verbatim>\<open>parse_product\<close>\<close>

text \<open>
  The price block of \<^verbatim>\<open>parse_product\<close>:
  \<^verbatim>\<open>
    if retail_price and old_price and old_price > retail_price:
        discount_pct = round((1 - retail_price / old_price) * 100, 1)
    else:
        discount_pct = 0.0
  \<close>
  The quotient is a float, so that the literals 1 and 100 enter as floats.
\<close>

definition discount_formula :: "pyval \<Rightarrow> pyval \<Rightarrow> error + pyval" where
  "discount_formula retail_price old_price =
     bindE (py_truediv retail_price old_price) (\<lambda>q.
     bindE (py_round1 (ieee_mul (ieee_sub (Finite 1) q) (Finite 100))) (\<lambda>d.
     Inr (PFloat d)))"

definition discount_pct :: "pyval \<Rightarrow> pyval \<Rightarrow> error + pyval" where
  "discount_pct retail_price old_price =
     (if truthy retail_price \<and> truthy old_price then
        bindE (py_gt old_price retail_price) (\<lambda>gt.
        if gt then discount_formula retail_price old_price
        else Inr (PFloat (Finite 0)))
      else Inr (PFloat (Finite 0)))"

type_synonym row = "(string \<times> pyval) list"

definition parse_product :: "(pyval \<Rightarrow> string) \<Rightarrow> pyval \<Rightarrow> error + row" where
  "parse_product str_of p =
     bindE (py_get p ''default_offer'' PNone) (\<lambda>v. let offer = py_or v (PDict []) in
     bindE (py_get offer ''seller'' PNone) (\<lambda>v. let seller = py_or v (PDict []) in
     bindE (py_get seller ''marketing_name'' PNone) (\<lambda>v. let seller_name_obj = py_or v (PDict []) in
     bindE (py_get p ''ratings'' PNone) (\<lambda>v. let ratings = py_or v (PDict []) in
     bindE (py_get p ''category'' PNone) (\<lambda>v. let category = py_or v (PDict []) in
     bindE (py_get p ''main_img'' PNone) (\<lambda>v. let main_img = py_or v (PDict []) in
     bindE (py_get offer ''retail_price'' PNone) (\<lambda>retail_price.
     bindE (py_get offer ''old_price'' PNone) (\<lambda>old_price.
     bindE (discount_pct retail_price old_price) (\<lambda>discount.
     bindE (py_get p ''id'' PNone) (\<lambda>f_id.
     bindE (py_get p ''name'' PNone) (\<lambda>f_name.
     bindE (py_get p ''brand'' PNone) (\<lambda>f_brand.
     bindE (py_get p ''category_id'' PNone) (\<lambda>f_category_id.
     bindE (py_get category ''name'' (PStr [])) (\<lambda>f_category_name.
     bindE (py_get p ''status'' PNone) (\<lambda>f_status.
     bindE (py_get seller_name_obj ''name'' (PStr [])) (\<lambda>f_seller_name.
     bindE (py_get seller ''rating'' PNone) (\<lambda>f_seller_rating.
     bindE (py_get ratings ''rating_value'' PNone) (\<lambda>f_rating_value.
     bindE (py_get ratings ''session_count'' PNone) (\<lambda>f_review_count.
     bindE (py_get offer ''avail_check'' (PBool False)) (\<lambda>f_in_stock.
     bindE (py_get offer ''installment_enabled'' (PBool False)) (\<lambda>f_installment_enabled.
     bindE (py_get offer ''max_installment_months'' PNone) (\<lambda>f_max_installment_months.
     bindE (py_get main_img ''medium'' (PStr [])) (\<lambda>f_image_url.
     bindE (py_get p ''slugged_name'' (PStr [])) (\<lambda>slug.
     Inr [(''id'', f_id),
          (''name'', f_name),
          (''brand'', py_or f_brand (PStr [])),
          (''category_id'', f_category_id),
          (''category_name'', f_category_name),
          (''status'', f_status),
          (''retail_price'', retail_price),
          (''old_price'', old_price),
          (''discount_pct'', discount),
          (''seller_name'', f_seller_name),
          (''seller_rating'', f_seller_rating),
          (''rating_value'', f_rating_value),
          (''review_count'', f_review_count),
          (''in_stock'', f_in_stock),
          (''installment_enabled'', f_installment_enabled),
          (''max_installment_months'', f_max_installment_months),
          (''image_url'', f_image_url),
          (''product_url'', PStr (PRODUCT_BASE_URL @ ''/'' @ py_format str_of slug))]
     ))))))))))))))))))))))))"

section \<open>The retrying requester: \<^verbatim>\<open>fetch_page\<close>\<close>

text \<open>
  What the server does to one request is an input of the model: either \<^verbatim>\<open>session.get\<close>
  raises (a transport error, a timeout), or it gives a response with a status, whose body
  \<^verbatim>\<open>resp.json(content_type=None)\<close> decodes or fails to decode.
\<close>

datatype http_result =
    HttpResp int "error + pyval"
  | HttpExn error

text \<open>
  What one task does, in order: the entry and the exit of \<^verbatim>\<open>async with semaphore\<close>, the
  request, the two log lines of a failed attempt (page, status or exception, attempt), the
  retry sleep, and the line that gives the page up. The last event is the line that
  \<^verbatim>\<open>get_total_pages\<close> prints.
\<close>

datatype event =
    EvAcquire
  | EvRequest int
  | EvLogHttp int int int
  | EvLogError int error int
  | EvRelease
  | EvSleep int
  | EvGiveUp int
  | EvLogTotals pyval pyval

text \<open>A list comprehension stops at the first exception.\<close>

fun map_result :: "('a \<Rightarrow> error + 'b) \<Rightarrow> 'a list \<Rightarrow> error + 'b list" where
  "map_result f [] = Inr []"
| "map_result f (x # xs) =
     bindE (f x) (\<lambda>y. bindE (map_result f xs) (\<lambda>ys. Inr (y # ys)))"

text \<open>\<^verbatim>\<open>[parse_product(p) for p in data.get("products", [])]\<close>\<close>

definition page_rows :: "(pyval \<Rightarrow> string) \<Rightarrow> pyval \<Rightarrow> error + row list" where
  "page_rows str_of data =
     bindE (py_get data ''products'' (PList [])) (\<lambda>products.
     bindE (py_iter products) (\<lambda>items.
     map_result (parse_product str_of) items))"

text \<open>
  The body of the \<^verbatim>\<open>try\<close> statement with its handler: it returns the rows of the page,
  or it falls through after a status other than 200, or an exception reaches
  \<^verbatim>\<open>except Exception\<close>.
\<close>

datatype attempt_result = Rows "row list" | BadStatus int | Raised error

fun run_attempt :: "(pyval \<Rightarrow> string) \<Rightarrow> http_result \<Rightarrow> attempt_result" where
  "run_attempt str_of (HttpExn e) = Raised e"
| "run_attempt str_of (HttpResp status body) =
     (if status = 200 then
        (case bindE body (page_rows str_of) of Inl e \<Rightarrow> Raised e | Inr rows \<Rightarrow> Rows rows)
      else BadStatus status)"

fun returns_rows :: "attempt_result \<Rightarrow> bool" where
  "returns_rows (Rows rows) = True"
| "returns_rows _ = False"

text \<open>\<^verbatim>\<open>range(a, b)\<close>\<close>

definition py_range :: "int \<Rightarrow> int \<Rightarrow> int list" where
  "py_range a b = [a..b - 1]"

text \<open>
  The loop \<^verbatim>\<open>for attempt in range(1, RETRY_LIMIT + 1)\<close> over the attempts that remain,
  and the two statements after it. The result is the returned list and the events of the
  task.
\<close>

fun fetch_attempts ::
  "(pyval \<Rightarrow> string) \<Rightarrow> (int \<Rightarrow> http_result) \<Rightarrow> int \<Rightarrow> int list \<Rightarrow> row list \<times> event list" where
  "fetch_attempts str_of responses page [] = ([], [EvGiveUp page])"
| "fetch_attempts str_of responses page (attempt # rest) =
     (case run_attempt str_of (responses attempt) of
        Rows rows \<Rightarrow> (rows, [EvAcquire, EvRequest page, EvRelease])
      | BadStatus status \<Rightarrow>
          (let (rows, evs) = fetch_attempts str_of responses page rest
           in (rows,
               [EvAcquire, EvRequest page, EvLogHttp page status attempt, EvRelease]
               @ (if attempt < RETRY_LIMIT then [EvSleep RETRY_DELAY] else []) @ evs))
      | Raised e \<Rightarrow>
          (let (rows, evs) = fetch_attempts str_of responses page rest
           in (rows,
               [EvAcquire, EvRequest page, EvLogError page e attempt, EvRelease]
               @ (if attempt < RETRY_LIMIT then [EvSleep RETRY_DELAY] else []) @ evs)))"

text \<open>\<open>net page attempt\<close> is what the server does to the given attempt for the given page.\<close>

definition fetch_page ::
  "(pyval \<Rightarrow> string) \<Rightarrow> (int \<Rightarrow> int \<Rightarrow> http_result) \<Rightarrow> int \<Rightarrow> row list \<times> event list" where
  "fetch_page str_of net page =
     fetch_attempts str_of (net page) page (py_range 1 (RETRY_LIMIT + 1))"

text \<open>The permits a task holds after a run of events: entries minus exits.\<close>

fun permits :: "event list \<Rightarrow> int" where
  "permits [] = 0"
| "permits (EvAcquire # es) = permits es + 1"
| "permits (EvRelease # es) = permits es - 1"
| "permits (_ # es) = permits es"

text \<open>
  The discipline of a task, checked along its events from the state of holding a permit or
  not: it enters only when it holds none, it requests and leaves only while it holds one,
  it sleeps only when it holds none, and it ends holding none.
\<close>

fun well_gated :: "bool \<Rightarrow> event list \<Rightarrow> bool" where
  "well_gated h [] = (\<not> h)"
| "well_gated h (EvAcquire # es) = (\<not> h \<and> well_gated True es)"
| "well_gated h (EvRelease # es) = (h \<and> well_gated False es)"
| "well_gated h (EvRequest page # es) = (h \<and> well_gated h es)"
| "well_gated h (EvSleep d # es) = (\<not> h \<and> well_gated h es)"
| "well_gated h (_ # es) = well_gated h es"

text \<open>After a request the permit is given back at once, or after the one log line of the attempt.\<close>

fun released_next :: "event list \<Rightarrow> bool" where
  "released_next (EvRelease # es) = True"
| "released_next (EvLogHttp page status attempt # EvRelease # es) = True"
| "released_next (EvLogError page e attempt # EvRelease # es) = True"
| "released_next _ = False"

fun prompt_release :: "event list \<Rightarrow> bool" where
  "prompt_release [] = True"
| "prompt_release (EvRequest page # es) = (released_next es \<and> prompt_release es)"
| "prompt_release (_ # es) = prompt_release es"

fun is_request :: "event \<Rightarrow> bool" where
  "is_request (EvRequest page) = True"
| "is_request _ = False"

fun is_request_or_sleep :: "event \<Rightarrow> bool" where
  "is_request_or_sleep (EvRequest page) = True"
| "is_request_or_sleep (EvSleep d) = True"
| "is_request_or_sleep _ = False"

section \<open>The page count: \<^verbatim>\<open>get_total_pages\<close>\<close>

text \<open>
  \<^verbatim>\<open>(total + per_page - 1) // per_page\<close> on integers; \<open>div\<close> rounds down as \<^verbatim>\<open>//\<close>
  does. The variable \<^verbatim>\<open>total\<close> of the program is \<open>total_items\<close> here.
\<close>

definition pages_for :: "int \<Rightarrow> int \<Rightarrow> int" where
  "pages_for per_page total_items = (total_items + per_page - 1) div per_page"

text \<open>
  \<^verbatim>\<open>x // w\<close> on floats, for a finite divisor that is not zero, as the interpreter
  computes it: the exact remainder, the quotient of what is left, and a correction of the
  rounding.
\<close>

definition float_floordiv :: "pyfloat \<Rightarrow> rat \<Rightarrow> pyfloat" where
  "float_floordiv a w =
     (case a of
        Finite x \<Rightarrow>
          (let q = x / w;
               t = (if 0 \<le> q then \<lfloor>q\<rfloor> else \<lceil>q\<rceil>);
               m = x - w * of_int t;
               d0 = fl (fl (x - m) / w);
               d = (if m \<noteq> 0 \<and> ((w < 0) \<noteq> (m < 0)) then fl (d0 - 1) else d0)
           in if d = 0 then Finite 0
              else let f = of_int \<lfloor>d\<rfloor>
                   in Finite (if 1 / 2 < fl (d - f) then fl (f + 1) else f))
      | _ \<Rightarrow> NaN)"

text \<open>
  \<^verbatim>\<open>pages = (total + PER_PAGE - 1) // PER_PAGE\<close> on whatever \<^verbatim>\<open>meta.total\<close> is: integer
  arithmetic on an integer, float arithmetic on a float, \<^verbatim>\<open>TypeError\<close> on anything else.
\<close>

fun page_count :: "pyval \<Rightarrow> error + pyval" where
  "page_count (PInt total_items) = Inr (PInt (pages_for PER_PAGE total_items))"
| "page_count (PBool b) = Inr (PInt (pages_for PER_PAGE (if b then 1 else 0)))"
| "page_count (PFloat total_items) =
     Inr (PFloat (float_floordiv
       (ieee_sub (ieee_add total_items (Finite (of_int PER_PAGE))) (Finite 1)) (of_int PER_PAGE)))"
| "page_count _ = Inl TypeError"

text \<open>
  One request for page 1, whose status is not looked at; the body is decoded and
  \<^verbatim>\<open>data["meta"]["total"]\<close> read. Nothing is caught.
\<close>

definition get_total_pages :: "http_result \<Rightarrow> (error + pyval) \<times> event list" where
  "get_total_pages r =
     (case r of
        HttpExn e \<Rightarrow> (Inl e, [EvRequest 1])
      | HttpResp status body \<Rightarrow>
          (case bindE body (\<lambda>data.
                bindE (py_getitem data ''meta'') (\<lambda>meta. py_getitem meta ''total'')) of
             Inl e \<Rightarrow> (Inl e, [EvRequest 1])
           | Inr total_items \<Rightarrow>
               (case page_count total_items of
                  Inl e \<Rightarrow> (Inl e, [EvRequest 1])
                | Inr pages \<Rightarrow> (Inr pages, [EvRequest 1, EvLogTotals total_items pages]))))"

section \<open>The orchestrator: \<^verbatim>\<open>main\<close>\<close>

text \<open>
  The state of the consuming loop: \<^verbatim>\<open>rows\<close>, \<^verbatim>\<open>done\<close>, and the progress lines printed so
  far (pages done, rows so far; the elapsed time is not modelled). \<open>consumed\<close> is not a
  variable of the program: it lists the pages whose outcome the loop has awaited.
\<close>

record run_state =
  rows :: "row list"
  done_count :: int
  consumed :: "int list"
  progress :: "(int \<times> int) list"

text \<open>
  \<^verbatim>\<open>asyncio.as_completed\<close> yields the tasks in the order in which they finish. The time
  at which the task of a page finishes is an input of the model, so that every order of
  completion is covered.
\<close>

definition as_completed :: "(int \<Rightarrow> nat) \<Rightarrow> int list \<Rightarrow> int list" where
  "as_completed finish tasks = sort_key finish tasks"

text \<open>One turn of \<^verbatim>\<open>for coro in asyncio.as_completed(tasks)\<close>, on the page that finished and its rows.\<close>

definition consume :: "int \<Rightarrow> run_state \<Rightarrow> int \<times> row list \<Rightarrow> run_state" where
  "consume total_pages st outcome =
     (let rows' = rows st @ snd outcome;
          done' = done_count st + 1
      in \<lparr>rows = rows',
          done_count = done',
          consumed = consumed st @ [fst outcome],
          progress = progress st @
            (if done' mod 100 = 0 \<or> done' = total_pages
             then [(done', int (length rows'))] else [])\<rparr>)"

definition task_list :: "int \<Rightarrow> int list" where
  "task_list total_pages = py_range 1 (total_pages + 1)"

definition orchestrate ::
  "(pyval \<Rightarrow> string) \<Rightarrow> (int \<Rightarrow> int \<Rightarrow> http_result) \<Rightarrow> (int \<Rightarrow> nat) \<Rightarrow> int \<Rightarrow> run_state" where
  "orchestrate str_of net finish total_pages =
     foldl (consume total_pages)
       \<lparr>rows = [], done_count = 0, consumed = [], progress = []\<rparr>
       (map (\<lambda>page. (page, fst (fetch_page str_of net page)))
         (as_completed finish (task_list total_pages)))"

text \<open>
  What the run meets outside the program: the text of values, whether the output
  directory can be made, the answer to the page count request, the answers to the page
  requests, the completion times, and whether the rows can be written.
\<close>

record env =
  env_str_of :: "pyval \<Rightarrow> string"
  env_mkdir :: "error option"
  env_meta :: http_result
  env_net :: "int \<Rightarrow> int \<Rightarrow> http_result"
  env_finish :: "int \<Rightarrow> nat"
  env_write :: "row list \<Rightarrow> error option"

text \<open>Where an exception leaves \<^verbatim>\<open>main\<close>.\<close>

datatype stage = AtMkdir | AtGetTotalPages | AtTaskList | AtWriteCsv

text \<open>
  \<^verbatim>\<open>main\<close>: the output directory, the page count, the task list (\<^verbatim>\<open>range\<close> takes
  integers only), the consuming loop, the CSV file.
\<close>

definition main :: "env \<Rightarrow> (stage \<times> error) + run_state" where
  "main env =
     (case env_mkdir env of
        Some e \<Rightarrow> Inl (AtMkdir, e)
      | None \<Rightarrow>
          (case fst (get_total_pages (env_meta env)) of
             Inl e \<Rightarrow> Inl (AtGetTotalPages, e)
           | Inr pages \<Rightarrow>
               (case int_value pages of
                  None \<Rightarrow> Inl (AtTaskList, TypeError)
                | Some total_pages \<Rightarrow>
                    (let st = orchestrate (env_str_of env) (env_net env) (env_finish env)
                                total_pages
                     in case env_write env (rows st) of
                          Some e \<Rightarrow> Inl (AtWriteCsv, e)
                        | None \<Rightarrow> Inr st))))"

text \<open>\<^verbatim>\<open>asyncio.run(main())\<close> as the whole script: an exception that leaves it ends the process with status 1.\<close>

definition exit_code :: "(stage \<times> error) + run_state \<Rightarrow> int" where
  "exit_code r = (case r of Inl e \<Rightarrow> 1 | Inr st \<Rightarrow> 0)"

section \<open>The concurrency gate\<close>

text \<open>
  The tasks run interleaved. Each task has the events it has done and the events it has
  still to do; the semaphore is its counter. A step lets one task do its next event:
  entering \<^verbatim>\<open>async with semaphore\<close> needs a counter above zero and lowers it (a task that
  finds zero waits: the step changes nothing), leaving raises it. A schedule is the list
  of the tasks that are given a step, in order.
\<close>

record sched =
  sem_value :: nat
  sched_tasks :: "(event list \<times> event list) list"

definition sched_step :: "sched \<Rightarrow> nat \<Rightarrow> sched" where
  "sched_step s i =
     (if i < length (sched_tasks s) then
        (case sched_tasks s ! i of
           (d, []) \<Rightarrow> s
         | (d, e # r) \<Rightarrow>
             if e = EvAcquire then
               (if sem_value s = 0 then s
                else \<lparr>sem_value = sem_value s - 1,
                      sched_tasks = (sched_tasks s)[i := (d @ [e], r)]\<rparr>)
             else if e = EvRelease then
               \<lparr>sem_value = sem_value s + 1, sched_tasks = (sched_tasks s)[i := (d @ [e], r)]\<rparr>
             else \<lparr>sem_value = sem_value s, sched_tasks = (sched_tasks s)[i := (d @ [e], r)]\<rparr>)
      else s)"

definition sched_init ::
  "(pyval \<Rightarrow> string) \<Rightarrow> (int \<Rightarrow> int \<Rightarrow> http_result) \<Rightarrow> int \<Rightarrow> sched" where
  "sched_init str_of net total_pages =
     \<lparr>sem_value = CONCURRENCY,
      sched_tasks = map (\<lambda>page. ([], snd (fetch_page str_of net page))) (task_list total_pages)\<rparr>"

definition run_sched :: "sched \<Rightarrow> nat list \<Rightarrow> sched" where
  "run_sched s schedule = foldl sched_step s schedule"

text \<open>The permits acquired and not released, over all tasks.\<close>

definition outstanding :: "sched \<Rightarrow> int" where
  "outstanding s = sum_list (map (\<lambda>t. permits (fst t)) (sched_tasks s))"

text \<open>A task is in its network call when the last thing it did is the request.\<close>

definition in_call :: "event list \<Rightarrow> bool" where
  "in_call d = (d \<noteq> [] \<and> is_request (last d))"

definition in_flight :: "sched \<Rightarrow> nat" where
  "in_flight s = length (filter (\<lambda>t. in_call (fst t)) (sched_tasks s))"

section \<open>The specification's wording\<close>

text \<open>
  The discount as the specification words it: the formula whenever the old price is
  greater than the retail price, and 0.0 otherwise.
\<close>

definition spec_discount :: "pyval \<Rightarrow> pyval \<Rightarrow> error + pyval" where
  "spec_discount retail_price old_price =
     (if py_gt old_price retail_price = Inr True then discount_formula retail_price old_price
      else Inr (PFloat (Finite 0)))"

text \<open>A field of a dictionary that is missing or is \<^verbatim>\<open>null\<close>.\<close>

definition absent_or_null :: "(string \<times> pyval) list \<Rightarrow> string \<Rightarrow> bool" where
  "absent_or_null d k = (map_of d k = None \<or> map_of d k = Some PNone)"

text \<open>
  A nested field and what the program reads from it: the field is missing or \<^verbatim>\<open>null\<close>,
  and there is nothing to read, or it is a dictionary.
\<close>

definition nested_field ::
  "(string \<times> pyval) list \<Rightarrow> string \<Rightarrow> (string \<times> pyval) list \<Rightarrow> bool" where
  "nested_field d k sub = (absent_or_null d k \<and> sub = [] \<or> map_of d k = Some (PDict sub))"

section \<open>Inputs of the examples\<close>

text \<open>The examples format strings only, so that the text of other values plays no part.\<close>

definition no_text :: "pyval \<Rightarrow> string" where
  "no_text v = []"

definition free_item :: pyval where
  "free_item = PDict [(''default_offer'', PDict [(''retail_price'', PInt 0), (''old_price'', PInt 100)])]"

definition reduced_item :: pyval where
  "reduced_item =
     PDict [(''id'', PInt 7), (''slugged_name'', PStr ''shirt''),
            (''default_offer'', PDict [(''retail_price'', PInt 80), (''old_price'', PInt 100)])]"

definition bare_item :: "(string \<times> pyval) list" where
  "bare_item = [(''id'', PInt 7), (''brand'', PNone), (''ratings'', PNone)]"

text \<open>
  An item whose offer has the seller \<^verbatim>\<open>null\<close>, and one whose seller has the marketing
  name \<^verbatim>\<open>null\<close>.
\<close>

definition null_seller_offer :: "(string \<times> pyval) list" where
  "null_seller_offer = [(''seller'', PNone), (''avail_check'', PBool True)]"

definition null_seller_item :: "(string \<times> pyval) list" where
  "null_seller_item = [(''id'', PInt 8), (''default_offer'', PDict null_seller_offer)]"

definition null_name_seller :: "(string \<times> pyval) list" where
  "null_name_seller = [(''marketing_name'', PNone), (''rating'', PInt 5)]"

definition null_name_offer :: "(string \<times> pyval) list" where
  "null_name_offer = [(''seller'', PDict null_name_seller)]"

definition null_name_item :: "(string \<times> pyval) list" where
  "null_name_item = [(''id'', PInt 9), (''default_offer'', PDict null_name_offer), (''category'', PNone)]"

text \<open>A server that is down, one that answers on the third attempt, and one that is fine.\<close>

definition net_down :: "int \<Rightarrow> int \<Rightarrow> http_result" where
  "net_down page attempt = (if attempt = 2 then HttpExn TimeoutError else HttpResp 503 (Inl JSONDecodeError))"

definition net_third :: "int \<Rightarrow> int \<Rightarrow> http_result" where
  "net_third page attempt =
     (if attempt = 3 then HttpResp 200 (Inr (PDict [(''products'', PList [reduced_item])]))
      else HttpResp 500 (Inl JSONDecodeError))"

definition net_ok :: "int \<Rightarrow> int \<Rightarrow> http_result" where
  "net_ok page attempt = HttpResp 200 (Inr (PDict [(''products'', PList [PDict [(''id'', PInt page)]])]))"

text \<open>A server that answers 200 with the body \<^verbatim>\<open>{"products": null}\<close>.\<close>

definition null_products :: pyval where
  "null_products = PDict [(''products'', PNone)]"

definition net_null :: "int \<Rightarrow> int \<Rightarrow> http_result" where
  "net_null page attempt = HttpResp 200 (Inr null_products)"

definition reverse_finish :: "int \<Rightarrow> nat" where
  "reverse_finish page = nat (10 - page)"

text \<open>
  A run whose output directory cannot be made although the server would answer the page
  count request with 24 items, and a run whose page count request is answered without
  \<^verbatim>\<open>meta\<close>.
\<close>

definition meta_24 :: http_result where
  "meta_24 = HttpResp 200 (Inr (PDict [(''meta'', PDict [(''total'', PInt 24)])]))"

definition write_ok :: "row list \<Rightarrow> error option" where
  "write_ok rs = None"

definition env_no_directory :: env where
  "env_no_directory =
     \<lparr>env_str_of = no_text, env_mkdir = Some OSError, env_meta = meta_24, env_net = net_ok,
      env_finish = reverse_finish, env_write = write_ok\<rparr>"

definition env_no_meta :: env where
  "env_no_meta =
     \<lparr>env_str_of = no_text, env_mkdir = None, env_meta = HttpResp 200 (Inr (PDict [])),
      env_net = net_ok, env_finish = reverse_finish, env_write = write_ok\<rparr>"

section \<open>Evaluation lemmas\<close>

lemma bindE_Inr [simp]: "bindE (Inr v) f = f v"
  by (simp add: bindE_def)

lemma bindE_Inl [simp]: "bindE (Inl e) f = Inl e"
  by (simp add: bindE_def)

lemma bindE_weak_cong: "m = m' \<Longrightarrow> bindE m f = bindE m' f"
  by simp

lemma bindE_eq_Inr: "bindE m f = Inr r \<longleftrightarrow> (\<exists>v. m = Inr v \<and> f v = Inr r)"
  by (cases m) simp_all

lemma py_or_simps:
  "py_or PNone y = y"
  "py_or (PDict []) y = y"
  "py_or (PDict (kv # kvs)) y = PDict (kv # kvs)"
  "py_or (PStr []) y = y"
  "py_or (PStr (c # s)) y = PStr (c # s)"
  "py_or (PList []) y = y"
  "py_or (PList (x # xs)) y = PList (x # xs)"
  by (simp_all add: py_or_def)

lemma dict_get_Nil [simp]: "dict_get [] k dflt = dflt"
  by (simp add: dict_get_def)

lemma dict_get_Cons [simp]:
  "dict_get (kv # kvs) k dflt = (if fst kv = k then snd kv else dict_get kvs k dflt)"
  by (cases kv) (simp add: dict_get_def)

lemma absent_or_null_py_or:
  "absent_or_null d k \<Longrightarrow> py_or (dict_get d k PNone) y = y"
  by (auto simp: absent_or_null_def dict_get_def py_or_def)

lemma bit_length_simps:
  "bit_length 0 = 0"
  "bit_length 1 = 1"
  "bit_length (numeral k) = 1 + bit_length (numeral k div 2)"
  "bit_length (- numeral k) = 0"
  by (subst bit_length.simps, simp)+

lemma floor_rat_numeral:
  "\<lfloor>numeral a / numeral b :: rat\<rfloor> = numeral a div numeral b"
  "\<lfloor>- (numeral a / numeral b) :: rat\<rfloor> = - numeral a div numeral b"
  "\<lfloor>1 / numeral b :: rat\<rfloor> = 1 div numeral b"
  "\<lfloor>- (1 / numeral b) :: rat\<rfloor> = - 1 div numeral b"
  "\<lceil>numeral a / numeral b :: rat\<rceil> = - (- numeral a div numeral b)"
  "\<lceil>- (numeral a / numeral b) :: rat\<rceil> = - (numeral a div numeral b)"
  "\<lceil>1 / numeral b :: rat\<rceil> = - (- 1 div numeral b)"
  using floor_divide_of_int_eq [of "numeral a" "numeral b", where ?'a = rat]
    floor_divide_of_int_eq [of "- numeral a" "numeral b", where ?'a = rat]
    floor_divide_of_int_eq [of 1 "numeral b", where ?'a = rat]
    floor_divide_of_int_eq [of "- 1" "numeral b", where ?'a = rat]
    ceiling_divide_eq_div [of "numeral a" "numeral b", where ?'a = rat]
    ceiling_divide_eq_div [of "- numeral a" "numeral b", where ?'a = rat]
    ceiling_divide_eq_div [of 1 "numeral b", where ?'a = rat]
  by simp_all

lemmas float_eval =
  floor_rat_numeral fl_def ilog2_def pow2_def round_half_even_def round_double_def
  dbl_limit_def bit_length_simps Let_def

lemmas discount_eval =
  discount_pct_def discount_formula_def py_truediv_def ieee_sub_def float_eval

section \<open>The exponent of a rational\<close>

text \<open>\<open>ilog2\<close> is the exponent that its description promises.\<close>

lemma bit_length_pos: "0 < n \<Longrightarrow> 0 < bit_length n"
proof (induction n rule: bit_length.induct)
  case (1 n)
  have "0 \<le> bit_length (n div 2)"
  proof (cases "n div 2 \<le> 0")
    case True
    then show ?thesis by (subst bit_length.simps) simp
  next
    case False
    with 1 show ?thesis by simp
  qed
  with 1 show ?case by (subst bit_length.simps) simp
qed

lemma bit_length_bounds:
  "0 < n \<Longrightarrow> 2 ^ nat (bit_length n - 1) \<le> n \<and> n < 2 ^ nat (bit_length n)"
proof (induction n rule: bit_length.induct)
  case (1 n)
  show ?case
  proof (cases "n div 2 \<le> 0")
    case True
    with 1 have "n = 1" by linarith
    then show ?thesis by (simp add: bit_length.simps [of 1] bit_length.simps [of 0])
  next
    case False
    define b where "b = bit_length (n div 2)"
    from False have h: "0 < n div 2" by simp
    with 1 have ih: "2 ^ nat (b - 1) \<le> n div 2" "n div 2 < 2 ^ nat b"
      by (simp_all add: b_def)
    from bit_length_pos [OF h] have bp: "0 < b" by (simp add: b_def)
    have bl: "bit_length n = 1 + b"
      using 1 by (subst bit_length.simps) (simp add: b_def)
    have p: "(2::int) ^ nat b = 2 * 2 ^ nat (b - 1)"
      using bp by (metis Suc_nat_eq_nat_zadd1 add.commute diff_add_cancel power_Suc zle_diff1_eq)
    have "2 ^ nat b \<le> n"
      using ih(1) p by linarith
    moreover have "n < 2 * 2 ^ nat b"
      using ih(2) by linarith
    moreover have "nat (1 + b) = Suc (nat b)"
      using bp by linarith
    ultimately show ?thesis by (simp add: bl)
  qed
qed

lemma pow2_nonneg: "0 \<le> e \<Longrightarrow> pow2 e = of_int (2 ^ nat e)"
  by (simp add: pow2_def)

lemma pow2_nonpos: "e \<le> 0 \<Longrightarrow> pow2 e = 1 / of_int (2 ^ nat (- e))"
  by (cases "e = 0") (simp_all add: pow2_def)

lemma ilog2_bounds:
  assumes "x \<noteq> 0"
  shows "pow2 (ilog2 x) \<le> \<bar>x\<bar> \<and> \<bar>x\<bar> < pow2 (ilog2 x + 1)"
proof (cases "1 \<le> \<bar>x\<bar>")
  case True
  define n where "n = \<lfloor>\<bar>x\<bar>\<rfloor>"
  have n0: "0 < n" using True by (simp add: n_def)
  have n1: "of_int n \<le> \<bar>x\<bar>" by (simp add: n_def)
  have n2: "\<bar>x\<bar> < of_int (n + 1)" by (simp add: n_def) linarith
  define b where "b = bit_length n"
  from bit_length_bounds [OF n0] bit_length_pos [OF n0]
  have bb: "2 ^ nat (b - 1) \<le> n" "n < 2 ^ nat b" "0 < b" by (simp_all add: b_def)
  have il: "ilog2 x = b - 1" using True by (simp add: ilog2_def n_def b_def)
  have "(of_int (2 ^ nat (b - 1)) :: rat) \<le> of_int n"
    using bb(1) by (rule of_int_le_iff [THEN iffD2])
  moreover have "pow2 (b - 1) = of_int (2 ^ nat (b - 1))"
    using bb(3) by (intro pow2_nonneg) simp
  ultimately have lo: "pow2 (b - 1) \<le> \<bar>x\<bar>"
    using n1 by linarith
  from bb(2) have "n + 1 \<le> 2 ^ nat b" by simp
  then have "(of_int (n + 1) :: rat) \<le> of_int (2 ^ nat b)"
    by (rule of_int_le_iff [THEN iffD2])
  moreover have "pow2 b = of_int (2 ^ nat b)"
    using bb(3) by (intro pow2_nonneg) simp
  ultimately have hi: "\<bar>x\<bar> < pow2 b"
    using n2 by linarith
  from lo hi show ?thesis by (simp add: il)
next
  case False
  define y where "y = 1 / \<bar>x\<bar>"
  have x0: "0 < \<bar>x\<bar>" using assms by simp
  have y1: "1 < y" using False x0 by (simp add: y_def)
  have xy: "\<bar>x\<bar> = 1 / y" by (simp add: y_def)
  define m where "m = \<lceil>y\<rceil> - 1"
  have m0: "0 < m" using y1 by (simp add: m_def) linarith?
  have m1: "of_int m < y" by (simp add: m_def) linarith?
  have m2: "y \<le> of_int (m + 1)" by (simp add: m_def)
  define b where "b = bit_length m"
  from bit_length_bounds [OF m0] bit_length_pos [OF m0]
  have bb: "2 ^ nat (b - 1) \<le> m" "m < 2 ^ nat b" "0 < b" by (simp_all add: b_def)
  have il: "ilog2 x = - b" using False by (simp add: ilog2_def y_def m_def b_def)
  from bb(2) have "m + 1 \<le> 2 ^ nat b" by simp
  then have "(of_int (m + 1) :: rat) \<le> of_int (2 ^ nat b)"
    by (rule of_int_le_iff [THEN iffD2])
  with m2 have "y \<le> of_int (2 ^ nat b)" by linarith
  with y1 have "1 / of_int (2 ^ nat b) \<le> 1 / y"
    by (intro divide_left_mono) simp_all
  moreover have "pow2 (- b) = 1 / of_int (2 ^ nat b)"
    using bb(3) pow2_nonpos [of "- b"] by simp
  ultimately have lo: "pow2 (- b) \<le> \<bar>x\<bar>"
    unfolding xy by linarith
  have "(of_int (2 ^ nat (b - 1)) :: rat) \<le> of_int m"
    using bb(1) by (rule of_int_le_iff [THEN iffD2])
  with m1 have "of_int (2 ^ nat (b - 1)) < y" by linarith
  then have "1 / y < 1 / of_int (2 ^ nat (b - 1))"
    using y1 by (intro divide_strict_left_mono) simp_all
  moreover have "pow2 (- b + 1) = 1 / of_int (2 ^ nat (b - 1))"
    using bb(3) pow2_nonpos [of "- b + 1"] by simp
  ultimately have hi: "\<bar>x\<bar> < pow2 (- b + 1)"
    unfolding xy by linarith
  from lo hi show ?thesis by (simp add: il)
qed

section \<open>The record transformer\<close>

lemma discount_pct_None [simp]:
  "discount_pct PNone old_price = Inr (PFloat (Finite 0))"
  "discount_pct retail_price PNone = Inr (PFloat (Finite 0))"
  by (simp_all add: discount_pct_def)

lemma parse_product_fields:
  assumes "parse_product str_of p = Inr r"
  shows "\<exists>d rp op. discount_pct rp op = Inr d \<and> map_of r ''discount_pct'' = Some d
     \<and> map_of r ''retail_price'' = Some rp \<and> map_of r ''old_price'' = Some op"
  using assms unfolding parse_product_def Let_def bindE_eq_Inr
  by (elim exE conjE) auto

lemma discount_pct_cases:
  assumes "discount_pct rp op = Inr d"
  shows "Inr d = (if truthy rp \<and> truthy op \<and> py_gt op rp = Inr True
                  then discount_formula rp op else Inr (PFloat (Finite 0)))"
proof (cases "truthy rp \<and> truthy op")
  case False
  with assms show ?thesis by (auto simp: discount_pct_def)
next
  case True
  show ?thesis
  proof (cases "py_gt op rp")
    case (Inl e)
    with True assms show ?thesis by (simp add: discount_pct_def)
  next
    case (Inr b)
    with True assms show ?thesis by (cases b) (simp_all add: discount_pct_def)
  qed
qed

lemma discount_80_100: "discount_pct (PInt 80) (PInt 100) = Inr (PFloat (Finite 20))"
  by (simp add: discount_eval)

lemma discount_100_80: "discount_pct (PInt 100) (PInt 80) = Inr (PFloat (Finite 0))"
  by (simp add: discount_pct_def)

lemma parse_reduced_item:
  "parse_product no_text reduced_item =
     Inr [(''id'', PInt 7), (''name'', PNone), (''brand'', PStr []), (''category_id'', PNone),
          (''category_name'', PStr []), (''status'', PNone), (''retail_price'', PInt 80),
          (''old_price'', PInt 100), (''discount_pct'', PFloat (Finite 20)),
          (''seller_name'', PStr []), (''seller_rating'', PNone), (''rating_value'', PNone),
          (''review_count'', PNone), (''in_stock'', PBool False),
          (''installment_enabled'', PBool False), (''max_installment_months'', PNone),
          (''image_url'', PStr []),
          (''product_url'', PStr ''https://birmarket.az/products/shirt'')]"
  unfolding parse_product_def
  by (simp add: reduced_item_def Let_def py_or_simps discount_80_100 py_format_def
      PRODUCT_BASE_URL_def cong: bindE_weak_cong)

text \<open>
  C7, as amended. In every row that \<^verbatim>\<open>parse_product\<close> returns, the discount is
  \<^verbatim>\<open>round((1 - retail/old)*100, 1)\<close> when the retail price and the old price are both
  truthy (present and not zero) and the old price is greater than the retail price, and it
  is 0.0 in every other case, among them a missing price. For retail 80 and old 100 it is
  20.0, for retail 100 and old 80 it is 0.0.
\<close>

theorem discount_of_row:
  assumes "parse_product str_of p = Inr r"
  shows "(\<exists>rp op d.
       map_of r ''retail_price'' = Some rp \<and> map_of r ''old_price'' = Some op \<and>
       map_of r ''discount_pct'' = Some d \<and>
       Inr d = (if truthy rp \<and> truthy op \<and> py_gt op rp = Inr True
                then discount_formula rp op else Inr (PFloat (Finite 0))) \<and>
       (rp = PNone \<or> op = PNone \<longrightarrow> d = PFloat (Finite 0))) \<and>
     discount_pct (PInt 80) (PInt 100) = Inr (PFloat (Finite 20)) \<and>
     discount_pct (PInt 100) (PInt 80) = Inr (PFloat (Finite 0))"
proof -
  from parse_product_fields [OF assms] obtain d rp op where
    h: "discount_pct rp op = Inr d" "map_of r ''discount_pct'' = Some d"
       "map_of r ''retail_price'' = Some rp" "map_of r ''old_price'' = Some op"
    by blast
  have "rp = PNone \<or> op = PNone \<longrightarrow> d = PFloat (Finite 0)"
    using h(1) by auto
  with discount_pct_cases [OF h(1)] h discount_80_100 discount_100_80
  show ?thesis by blast
qed

theorem discount_of_row_witness:
  "parse_product no_text reduced_item =
     Inr [(''id'', PInt 7), (''name'', PNone), (''brand'', PStr []), (''category_id'', PNone),
          (''category_name'', PStr []), (''status'', PNone), (''retail_price'', PInt 80),
          (''old_price'', PInt 100), (''discount_pct'', PFloat (Finite 20)),
          (''seller_name'', PStr []), (''seller_rating'', PNone), (''rating_value'', PNone),
          (''review_count'', PNone), (''in_stock'', PBool False),
          (''installment_enabled'', PBool False), (''max_installment_months'', PNone),
          (''image_url'', PStr []),
          (''product_url'', PStr ''https://birmarket.az/products/shirt'')] \<and>
   discount_formula (PInt 80) (PInt 100) = Inr (PFloat (Finite 20))"
  using discount_of_row [OF parse_reduced_item] parse_reduced_item
  by (simp add: discount_eval)

text \<open>
  C7, as the specification words it, fails for a free item whose old price is 100: the old
  price is greater than the retail price 0, the formula gives 100.0, and the program gives
  0.0, because the retail price 0 is falsy.
\<close>

theorem discount_free_item_counterexample:
  "parse_product no_text free_item =
     Inr [(''id'', PNone), (''name'', PNone), (''brand'', PStr []), (''category_id'', PNone),
          (''category_name'', PStr []), (''status'', PNone), (''retail_price'', PInt 0),
          (''old_price'', PInt 100), (''discount_pct'', PFloat (Finite 0)),
          (''seller_name'', PStr []), (''seller_rating'', PNone), (''rating_value'', PNone),
          (''review_count'', PNone), (''in_stock'', PBool False),
          (''installment_enabled'', PBool False), (''max_installment_months'', PNone),
          (''image_url'', PStr []),
          (''product_url'', PStr ''https://birmarket.az/products/'')] \<and>
   py_gt (PInt 100) (PInt 0) = Inr True \<and>
   spec_discount (PInt 0) (PInt 100) = Inr (PFloat (Finite 100))"
proof -
  have "parse_product no_text free_item =
     Inr [(''id'', PNone), (''name'', PNone), (''brand'', PStr []), (''category_id'', PNone),
          (''category_name'', PStr []), (''status'', PNone), (''retail_price'', PInt 0),
          (''old_price'', PInt 100), (''discount_pct'', PFloat (Finite 0)),
          (''seller_name'', PStr []), (''seller_rating'', PNone), (''rating_value'', PNone),
          (''review_count'', PNone), (''in_stock'', PBool False),
          (''installment_enabled'', PBool False), (''max_installment_months'', PNone),
          (''image_url'', PStr []),
          (''product_url'', PStr ''https://birmarket.az/products/'')]"
    unfolding parse_product_def
    by (simp add: free_item_def Let_def py_or_simps discount_pct_def py_format_def
        PRODUCT_BASE_URL_def cong: bindE_weak_cong)
  moreover have "spec_discount (PInt 0) (PInt 100) = Inr (PFloat (Finite 100))"
    by (simp add: spec_discount_def discount_eval)
  ultimately show ?thesis by simp
qed

lemma nested_field_py_or:
  "nested_field d k sub \<Longrightarrow> py_or (dict_get d k PNone) (PDict []) = PDict sub"
  by (auto simp: nested_field_def absent_or_null_def dict_get_def py_or_def)

lemma absent_or_null_nested_field: "absent_or_null d k \<Longrightarrow> nested_field d k []"
  by (simp add: nested_field_def)

lemma nested_field_absent: "nested_field d k sub \<Longrightarrow> absent_or_null d k \<Longrightarrow> sub = []"
  by (auto simp: nested_field_def absent_or_null_def)

lemma absent_or_null_dict_get: "absent_or_null d k \<Longrightarrow> dict_get d k PNone = PNone"
  by (auto simp: absent_or_null_def dict_get_def)

text \<open>
  What \<^verbatim>\<open>parse_product\<close> does on a dictionary in which each of the six nested fields
  is missing, \<^verbatim>\<open>null\<close> or a dictionary: nothing but the price block can raise, and
  the row reads every nested value through the dictionary that stands for its field.
\<close>

lemma parse_product_shape:
  assumes "nested_field d ''default_offer'' offer" and "nested_field offer ''seller'' seller"
    and "nested_field seller ''marketing_name'' mname" and "nested_field d ''ratings'' ratings"
    and "nested_field d ''category'' category" and "nested_field d ''main_img'' img"
  shows "parse_product str_of (PDict d) =
    bindE (discount_pct (dict_get offer ''retail_price'' PNone) (dict_get offer ''old_price'' PNone))
      (\<lambda>discount. Inr
        [(''id'', dict_get d ''id'' PNone),
         (''name'', dict_get d ''name'' PNone),
         (''brand'', py_or (dict_get d ''brand'' PNone) (PStr [])),
         (''category_id'', dict_get d ''category_id'' PNone),
         (''category_name'', dict_get category ''name'' (PStr [])),
         (''status'', dict_get d ''status'' PNone),
         (''retail_price'', dict_get offer ''retail_price'' PNone),
         (''old_price'', dict_get offer ''old_price'' PNone),
         (''discount_pct'', discount),
         (''seller_name'', dict_get mname ''name'' (PStr [])),
         (''seller_rating'', dict_get seller ''rating'' PNone),
         (''rating_value'', dict_get ratings ''rating_value'' PNone),
         (''review_count'', dict_get ratings ''session_count'' PNone),
         (''in_stock'', dict_get offer ''avail_check'' (PBool False)),
         (''installment_enabled'', dict_get offer ''installment_enabled'' (PBool False)),
         (''max_installment_months'', dict_get offer ''max_installment_months'' PNone),
         (''image_url'', dict_get img ''medium'' (PStr [])),
         (''product_url'',
          PStr (PRODUCT_BASE_URL @ ''/'' @ py_format str_of (dict_get d ''slugged_name'' (PStr []))))])"
proof (cases "discount_pct (dict_get offer ''retail_price'' PNone) (dict_get offer ''old_price'' PNone)")
  case (Inl e)
  then show ?thesis
    unfolding parse_product_def
    by (simp add: Let_def nested_field_py_or [OF assms(1)] nested_field_py_or [OF assms(2)]
        nested_field_py_or [OF assms(3)] nested_field_py_or [OF assms(4)]
        nested_field_py_or [OF assms(5)] nested_field_py_or [OF assms(6)]
        cong: bindE_weak_cong)
next
  case (Inr dv)
  then show ?thesis
    unfolding parse_product_def
    by (simp add: Let_def nested_field_py_or [OF assms(1)] nested_field_py_or [OF assms(2)]
        nested_field_py_or [OF assms(3)] nested_field_py_or [OF assms(4)]
        nested_field_py_or [OF assms(5)] nested_field_py_or [OF assms(6)]
        cong: bindE_weak_cong)
qed

text \<open>
  C10. The program reads \<^verbatim>\<open>seller\<close> from \<^verbatim>\<open>default_offer\<close> and \<^verbatim>\<open>marketing_name\<close>
  from \<^verbatim>\<open>seller\<close>. Let \<^verbatim>\<open>ratings\<close>, \<^verbatim>\<open>category\<close> and \<^verbatim>\<open>main_img\<close> be missing or
  \<^verbatim>\<open>null\<close>; let \<^verbatim>\<open>default_offer\<close> be missing or \<^verbatim>\<open>null\<close>, or a dictionary in which
  \<^verbatim>\<open>seller\<close> is missing or \<^verbatim>\<open>null\<close>, or a dictionary in which \<^verbatim>\<open>marketing_name\<close> is
  missing or \<^verbatim>\<open>null\<close>. Then no lookup in a nested field raises: \<^verbatim>\<open>parse_product\<close>
  returns a row with the 18 keys of \<^verbatim>\<open>CSV_FIELDS\<close>, in that order, in which every value
  of a missing or \<^verbatim>\<open>null\<close> field is the falsy default, unless the offer carries prices
  on which the price block raises. With \<^verbatim>\<open>default_offer\<close> itself missing or \<^verbatim>\<open>null\<close>
  the row is the one written out below, and without \<^verbatim>\<open>slugged_name\<close> its product URL
  is the base URL and a slash.
\<close>

theorem parse_product_without_nested:
  assumes "absent_or_null d ''ratings''" and "absent_or_null d ''category''"
    and "absent_or_null d ''main_img''"
    and "nested_field d ''default_offer'' offer" and "nested_field offer ''seller'' seller"
    and "absent_or_null seller ''marketing_name''"
  shows "parse_product str_of (PDict d) =
    bindE (discount_pct (dict_get offer ''retail_price'' PNone) (dict_get offer ''old_price'' PNone))
      (\<lambda>discount. Inr
        [(''id'', dict_get d ''id'' PNone),
         (''name'', dict_get d ''name'' PNone),
         (''brand'', py_or (dict_get d ''brand'' PNone) (PStr [])),
         (''category_id'', dict_get d ''category_id'' PNone),
         (''category_name'', PStr []),
         (''status'', dict_get d ''status'' PNone),
         (''retail_price'', dict_get offer ''retail_price'' PNone),
         (''old_price'', dict_get offer ''old_price'' PNone),
         (''discount_pct'', discount),
         (''seller_name'', PStr []),
         (''seller_rating'', dict_get seller ''rating'' PNone),
         (''rating_value'', PNone),
         (''review_count'', PNone),
         (''in_stock'', dict_get offer ''avail_check'' (PBool False)),
         (''installment_enabled'', dict_get offer ''installment_enabled'' (PBool False)),
         (''max_installment_months'', dict_get offer ''max_installment_months'' PNone),
         (''image_url'', PStr []),
         (''product_url'',
          PStr (PRODUCT_BASE_URL @ ''/'' @ py_format str_of (dict_get d ''slugged_name'' (PStr []))))]) \<and>
    (absent_or_null offer ''retail_price'' \<or> absent_or_null offer ''old_price'' \<longrightarrow>
      (\<exists>r. parse_product str_of (PDict d) = Inr r \<and> map fst r = CSV_FIELDS \<and>
         map_of r ''discount_pct'' = Some (PFloat (Finite 0)) \<and>
         map_of r ''seller_name'' = Some (PStr []) \<and>
         map_of r ''seller_rating'' = Some (dict_get seller ''rating'' PNone))) \<and>
    (\<forall>r. parse_product str_of (PDict d) = Inr r \<longrightarrow>
      map fst r = CSV_FIELDS \<and>
      (map_of d ''slugged_name'' = None \<longrightarrow>
         map_of r ''product_url'' = Some (PStr ''https://birmarket.az/products/''))) \<and>
    (absent_or_null d ''default_offer'' \<longrightarrow>
      (\<exists>r. parse_product str_of (PDict d) = Inr r \<and> map fst r = CSV_FIELDS \<and>
        r = [(''id'', dict_get d ''id'' PNone),
             (''name'', dict_get d ''name'' PNone),
             (''brand'', py_or (dict_get d ''brand'' PNone) (PStr [])),
             (''category_id'', dict_get d ''category_id'' PNone),
             (''category_name'', PStr []),
             (''status'', dict_get d ''status'' PNone),
             (''retail_price'', PNone),
             (''old_price'', PNone),
             (''discount_pct'', PFloat (Finite 0)),
             (''seller_name'', PStr []),
             (''seller_rating'', PNone),
             (''rating_value'', PNone),
             (''review_count'', PNone),
             (''in_stock'', PBool False),
             (''installment_enabled'', PBool False),
             (''max_installment_months'', PNone),
             (''image_url'', PStr []),
             (''product_url'',
              PStr (PRODUCT_BASE_URL @ ''/'' @
                py_format str_of (dict_get d ''slugged_name'' (PStr []))))] \<and>
        (map_of d ''slugged_name'' = None \<longrightarrow>
           map_of r ''product_url'' = Some (PStr ''https://birmarket.az/products/''))))"
proof -
  note shape = parse_product_shape [OF assms(4) assms(5)
      absent_or_null_nested_field [OF assms(6)] absent_or_null_nested_field [OF assms(1)]
      absent_or_null_nested_field [OF assms(2)] absent_or_null_nested_field [OF assms(3)],
      of str_of]
  have eq: "parse_product str_of (PDict d) =
    bindE (discount_pct (dict_get offer ''retail_price'' PNone) (dict_get offer ''old_price'' PNone))
      (\<lambda>discount. Inr
        [(''id'', dict_get d ''id'' PNone),
         (''name'', dict_get d ''name'' PNone),
         (''brand'', py_or (dict_get d ''brand'' PNone) (PStr [])),
         (''category_id'', dict_get d ''category_id'' PNone),
         (''category_name'', PStr []),
         (''status'', dict_get d ''status'' PNone),
         (''retail_price'', dict_get offer ''retail_price'' PNone),
         (''old_price'', dict_get offer ''old_price'' PNone),
         (''discount_pct'', discount),
         (''seller_name'', PStr []),
         (''seller_rating'', dict_get seller ''rating'' PNone),
         (''rating_value'', PNone),
         (''review_count'', PNone),
         (''in_stock'', dict_get offer ''avail_check'' (PBool False)),
         (''installment_enabled'', dict_get offer ''installment_enabled'' (PBool False)),
         (''max_installment_months'', dict_get offer ''max_installment_months'' PNone),
         (''image_url'', PStr []),
         (''product_url'',
          PStr (PRODUCT_BASE_URL @ ''/'' @ py_format str_of (dict_get d ''slugged_name'' (PStr []))))])"
    using shape by simp
  have p2: "absent_or_null offer ''retail_price'' \<or> absent_or_null offer ''old_price'' \<longrightarrow>
      (\<exists>r. parse_product str_of (PDict d) = Inr r \<and> map fst r = CSV_FIELDS \<and>
         map_of r ''discount_pct'' = Some (PFloat (Finite 0)) \<and>
         map_of r ''seller_name'' = Some (PStr []) \<and>
         map_of r ''seller_rating'' = Some (dict_get seller ''rating'' PNone))"
  proof
    assume "absent_or_null offer ''retail_price'' \<or> absent_or_null offer ''old_price''"
    then have "discount_pct (dict_get offer ''retail_price'' PNone)
        (dict_get offer ''old_price'' PNone) = Inr (PFloat (Finite 0))"
      by (auto simp: absent_or_null_dict_get)
    then show "\<exists>r. parse_product str_of (PDict d) = Inr r \<and> map fst r = CSV_FIELDS \<and>
         map_of r ''discount_pct'' = Some (PFloat (Finite 0)) \<and>
         map_of r ''seller_name'' = Some (PStr []) \<and>
         map_of r ''seller_rating'' = Some (dict_get seller ''rating'' PNone)"
      unfolding eq by (simp add: CSV_FIELDS_def)
  qed
  have p3: "\<forall>r. parse_product str_of (PDict d) = Inr r \<longrightarrow>
      map fst r = CSV_FIELDS \<and>
      (map_of d ''slugged_name'' = None \<longrightarrow>
         map_of r ''product_url'' = Some (PStr ''https://birmarket.az/products/''))"
    unfolding eq
    by (auto simp: bindE_eq_Inr CSV_FIELDS_def dict_get_def py_format_def PRODUCT_BASE_URL_def)
  have p4: "absent_or_null d ''default_offer'' \<longrightarrow>
      (\<exists>r. parse_product str_of (PDict d) = Inr r \<and> map fst r = CSV_FIELDS \<and>
        r = [(''id'', dict_get d ''id'' PNone),
             (''name'', dict_get d ''name'' PNone),
             (''brand'', py_or (dict_get d ''brand'' PNone) (PStr [])),
             (''category_id'', dict_get d ''category_id'' PNone),
             (''category_name'', PStr []),
             (''status'', dict_get d ''status'' PNone),
             (''retail_price'', PNone),
             (''old_price'', PNone),
             (''discount_pct'', PFloat (Finite 0)),
             (''seller_name'', PStr []),
             (''seller_rating'', PNone),
             (''rating_value'', PNone),
             (''review_count'', PNone),
             (''in_stock'', PBool False),
             (''installment_enabled'', PBool False),
             (''max_installment_months'', PNone),
             (''image_url'', PStr []),
             (''product_url'',
              PStr (PRODUCT_BASE_URL @ ''/'' @
                py_format str_of (dict_get d ''slugged_name'' (PStr []))))] \<and>
        (map_of d ''slugged_name'' = None \<longrightarrow>
           map_of r ''product_url'' = Some (PStr ''https://birmarket.az/products/'')))"
  proof
    assume a: "absent_or_null d ''default_offer''"
    from nested_field_absent [OF assms(4) a] have o: "offer = []" .
    with assms(5) have s: "seller = []"
      by (simp add: nested_field_def absent_or_null_def)
    show "\<exists>r. parse_product str_of (PDict d) = Inr r \<and> map fst r = CSV_FIELDS \<and>
        r = [(''id'', dict_get d ''id'' PNone),
             (''name'', dict_get d ''name'' PNone),
             (''brand'', py_or (dict_get d ''brand'' PNone) (PStr [])),
             (''category_id'', dict_get d ''category_id'' PNone),
             (''category_name'', PStr []),
             (''status'', dict_get d ''status'' PNone),
             (''retail_price'', PNone),
             (''old_price'', PNone),
             (''discount_pct'', PFloat (Finite 0)),
             (''seller_name'', PStr []),
             (''seller_rating'', PNone),
             (''rating_value'', PNone),
             (''review_count'', PNone),
             (''in_stock'', PBool False),
             (''installment_enabled'', PBool False),
             (''max_installment_months'', PNone),
             (''image_url'', PStr []),
             (''product_url'',
              PStr (PRODUCT_BASE_URL @ ''/'' @
                py_format str_of (dict_get d ''slugged_name'' (PStr []))))] \<and>
        (map_of d ''slugged_name'' = None \<longrightarrow>
           map_of r ''product_url'' = Some (PStr ''https://birmarket.az/products/''))"
      unfolding eq o s
      by (simp add: CSV_FIELDS_def dict_get_def py_format_def PRODUCT_BASE_URL_def)
  qed
  from eq p2 p3 p4 show ?thesis by (intro conjI)
qed

theorem parse_product_without_nested_witness:
  "absent_or_null bare_item ''ratings'' \<and> absent_or_null bare_item ''category'' \<and>
   absent_or_null bare_item ''main_img'' \<and> absent_or_null bare_item ''default_offer'' \<and>
   parse_product no_text (PDict bare_item) =
     Inr [(''id'', PInt 7), (''name'', PNone), (''brand'', PStr []), (''category_id'', PNone),
          (''category_name'', PStr []), (''status'', PNone), (''retail_price'', PNone),
          (''old_price'', PNone), (''discount_pct'', PFloat (Finite 0)),
          (''seller_name'', PStr []), (''seller_rating'', PNone), (''rating_value'', PNone),
          (''review_count'', PNone), (''in_stock'', PBool False),
          (''installment_enabled'', PBool False), (''max_installment_months'', PNone),
          (''image_url'', PStr []),
          (''product_url'', PStr ''https://birmarket.az/products/'')] \<and>
   nested_field null_seller_item ''default_offer'' null_seller_offer \<and>
   nested_field null_seller_offer ''seller'' [] \<and>
   map_of null_seller_offer ''seller'' = Some PNone \<and>
   parse_product no_text (PDict null_seller_item) =
     Inr [(''id'', PInt 8), (''name'', PNone), (''brand'', PStr []), (''category_id'', PNone),
          (''category_name'', PStr []), (''status'', PNone), (''retail_price'', PNone),
          (''old_price'', PNone), (''discount_pct'', PFloat (Finite 0)),
          (''seller_name'', PStr []), (''seller_rating'', PNone), (''rating_value'', PNone),
          (''review_count'', PNone), (''in_stock'', PBool True),
          (''installment_enabled'', PBool False), (''max_installment_months'', PNone),
          (''image_url'', PStr []),
          (''product_url'', PStr ''https://birmarket.az/products/'')] \<and>
   nested_field null_name_item ''default_offer'' null_name_offer \<and>
   nested_field null_name_offer ''seller'' null_name_seller \<and>
   map_of null_name_seller ''marketing_name'' = Some PNone \<and>
   parse_product no_text (PDict null_name_item) =
     Inr [(''id'', PInt 9), (''name'', PNone), (''brand'', PStr []), (''category_id'', PNone),
          (''category_name'', PStr []), (''status'', PNone), (''retail_price'', PNone),
          (''old_price'', PNone), (''discount_pct'', PFloat (Finite 0)),
          (''seller_name'', PStr []), (''seller_rating'', PInt 5), (''rating_value'', PNone),
          (''review_count'', PNone), (''in_stock'', PBool False),
          (''installment_enabled'', PBool False), (''max_installment_months'', PNone),
          (''image_url'', PStr []),
          (''product_url'', PStr ''https://birmarket.az/products/'')]"
proof -
  have b: "absent_or_null bare_item ''ratings''" "absent_or_null bare_item ''category''"
    "absent_or_null bare_item ''main_img''" "absent_or_null bare_item ''default_offer''"
    "nested_field bare_item ''default_offer'' []" "nested_field [] ''seller'' []"
    "absent_or_null [] ''marketing_name''"
    by (simp_all add: absent_or_null_def nested_field_def bare_item_def)
  have s: "absent_or_null null_seller_item ''ratings''"
    "absent_or_null null_seller_item ''category''" "absent_or_null null_seller_item ''main_img''"
    "nested_field null_seller_item ''default_offer'' null_seller_offer"
    "nested_field null_seller_offer ''seller'' []" "absent_or_null [] ''marketing_name''"
    "map_of null_seller_offer ''seller'' = Some PNone"
    by (simp_all add: absent_or_null_def nested_field_def null_seller_item_def
        null_seller_offer_def)
  have n: "absent_or_null null_name_item ''ratings''"
    "absent_or_null null_name_item ''category''" "absent_or_null null_name_item ''main_img''"
    "nested_field null_name_item ''default_offer'' null_name_offer"
    "nested_field null_name_offer ''seller'' null_name_seller"
    "absent_or_null null_name_seller ''marketing_name''"
    "map_of null_name_seller ''marketing_name'' = Some PNone"
    by (simp_all add: absent_or_null_def nested_field_def null_name_item_def
        null_name_offer_def null_name_seller_def)
  have r1: "parse_product no_text (PDict bare_item) =
     Inr [(''id'', PInt 7), (''name'', PNone), (''brand'', PStr []), (''category_id'', PNone),
          (''category_name'', PStr []), (''status'', PNone), (''retail_price'', PNone),
          (''old_price'', PNone), (''discount_pct'', PFloat (Finite 0)),
          (''seller_name'', PStr []), (''seller_rating'', PNone), (''rating_value'', PNone),
          (''review_count'', PNone), (''in_stock'', PBool False),
          (''installment_enabled'', PBool False), (''max_installment_months'', PNone),
          (''image_url'', PStr []),
          (''product_url'', PStr ''https://birmarket.az/products/'')]"
    using parse_product_without_nested [OF b(1) b(2) b(3) b(5) b(6) b(7), of no_text, THEN conjunct1]
    by (simp add: bare_item_def py_or_simps py_format_def PRODUCT_BASE_URL_def)
  have r2: "parse_product no_text (PDict null_seller_item) =
     Inr [(''id'', PInt 8), (''name'', PNone), (''brand'', PStr []), (''category_id'', PNone),
          (''category_name'', PStr []), (''status'', PNone), (''retail_price'', PNone),
          (''old_price'', PNone), (''discount_pct'', PFloat (Finite 0)),
          (''seller_name'', PStr []), (''seller_rating'', PNone), (''rating_value'', PNone),
          (''review_count'', PNone), (''in_stock'', PBool True),
          (''installment_enabled'', PBool False), (''max_installment_months'', PNone),
          (''image_url'', PStr []),
          (''product_url'', PStr ''https://birmarket.az/products/'')]"
    using parse_product_without_nested [OF s(1) s(2) s(3) s(4) s(5) s(6), of no_text, THEN conjunct1]
    by (simp add: null_seller_item_def null_seller_offer_def py_or_simps py_format_def
        PRODUCT_BASE_URL_def)
  have r3: "parse_product no_text (PDict null_name_item) =
     Inr [(''id'', PInt 9), (''name'', PNone), (''brand'', PStr []), (''category_id'', PNone),
          (''category_name'', PStr []), (''status'', PNone), (''retail_price'', PNone),
          (''old_price'', PNone), (''discount_pct'', PFloat (Finite 0)),
          (''seller_name'', PStr []), (''seller_rating'', PInt 5), (''rating_value'', PNone),
          (''review_count'', PNone), (''in_stock'', PBool False),
          (''installment_enabled'', PBool False), (''max_installment_months'', PNone),
          (''image_url'', PStr []),
          (''product_url'', PStr ''https://birmarket.az/products/'')]"
    using parse_product_without_nested [OF n(1) n(2) n(3) n(4) n(5) n(6), of no_text, THEN conjunct1]
    by (simp add: null_name_item_def null_name_offer_def null_name_seller_def py_or_simps
        py_format_def PRODUCT_BASE_URL_def)
  show ?thesis
    using b s n r1 r2 r3 by simp
qed

section \<open>The page count\<close>

lemma div_round_up:
  fixes t p :: int
  assumes "0 < p"
  shows "(t + p - 1) div p = - ((- t) div p)"
proof (cases "t mod p = 0")
  case True
  then obtain q where q: "t = p * q" by auto
  have "(t + p - 1) div p = (p * q + (p - 1)) div p" by (simp add: q algebra_simps)
  also have "\<dots> = q" using assms by (simp add: div_pos_pos_trivial)
  finally have "(t + p - 1) div p = q" .
  moreover have "(- t) div p = (p * (- q)) div p" by (simp add: q)
  moreover have "(p * (- q)) div p = - q" using assms by (simp del: mult_minus_right)
  ultimately show ?thesis by simp
next
  case False
  define q where "q = t div p"
  define r where "r = t mod p"
  have t: "t = p * q + r" by (simp add: q_def r_def)
  have "0 \<le> r" "r < p" using assms by (simp_all add: r_def)
  with False have r: "0 < r" "r < p" by (simp_all add: r_def less_le)
  have "(t + p - 1) div p = (p * (q + 1) + (r - 1)) div p" by (simp add: t algebra_simps)
  also have "\<dots> = q + 1" using assms r by (simp add: div_pos_pos_trivial)
  finally have up: "(t + p - 1) div p = q + 1" .
  have "(- t) div p = (p * (- (q + 1)) + (p - r)) div p" by (simp add: t algebra_simps)
  also have "\<dots> = - (q + 1)" using assms r by (simp add: div_pos_pos_trivial)
  finally show ?thesis using up by simp
qed

text \<open>
  C6. For a count of items that is not negative and a positive page size,
  \<^verbatim>\<open>(total + per_page - 1) // per_page\<close> is the count divided by the page size, rounded
  up; \<^verbatim>\<open>get_total_pages\<close> computes it with the page size 24, and 62633 items give
  2610 pages.
\<close>

theorem pages_for_ceiling:
  assumes "0 \<le> total_items" and "0 < per_page"
  shows "pages_for per_page total_items = \<lceil>(of_int total_items :: rat) / of_int per_page\<rceil>
    \<and> page_count (PInt total_items) = Inr (PInt \<lceil>(of_int total_items :: rat) / of_int PER_PAGE\<rceil>)
    \<and> page_count (PInt 62633) = Inr (PInt 2610)"
proof -
  have c: "pages_for p t = \<lceil>(of_int t :: rat) / of_int p\<rceil>" if "0 < p" for p t
    using that by (simp add: pages_for_def div_round_up ceiling_divide_eq_div)
  have "page_count (PInt 62633) = Inr (PInt 2610)"
    by (simp add: pages_for_def PER_PAGE_def)
  then show ?thesis
    using c [OF assms(2)] c [of PER_PAGE total_items] by (simp add: PER_PAGE_def)
qed

theorem pages_for_ceiling_witness:
  "(0::int) \<le> 62633 \<and> (0::int) < 24 \<and> pages_for 24 62633 = \<lceil>(62633 :: rat) / 24\<rceil> \<and>
   pages_for 24 62633 = 2610"
  using pages_for_ceiling [of 62633 24] by (simp add: pages_for_def)

section \<open>The retrying requester\<close>

lemma attempts_list: "py_range 1 (RETRY_LIMIT + 1) = [1, 2, 3]"
  by (simp add: py_range_def RETRY_LIMIT_def upto_rec1)

lemma fetch_attempts_fst_failed:
  "\<not> returns_rows (run_attempt str_of (responses a)) \<Longrightarrow>
   fst (fetch_attempts str_of responses page (a # rest)) =
   fst (fetch_attempts str_of responses page rest)"
  by (cases "run_attempt str_of (responses a)") (simp_all add: split_beta)

lemma fetch_attempts_snd_failed:
  "\<not> returns_rows (run_attempt str_of (responses a)) \<Longrightarrow>
   filter is_request_or_sleep (snd (fetch_attempts str_of responses page (a # rest))) =
   EvRequest page # (if a < RETRY_LIMIT then [EvSleep RETRY_DELAY] else []) @
   filter is_request_or_sleep (snd (fetch_attempts str_of responses page rest))"
  by (cases "run_attempt str_of (responses a)") (simp_all add: split_beta)

lemma fetch_attempts_returned:
  "run_attempt str_of (responses a) = Rows rs \<Longrightarrow>
   fetch_attempts str_of responses page (a # rest) = (rs, [EvAcquire, EvRequest page, EvRelease])"
  by simp

text \<open>
  C3. When every attempt for a page fails, \<^verbatim>\<open>fetch_page\<close> makes exactly
  \<^verbatim>\<open>RETRY_LIMIT\<close> requests, sleeps \<^verbatim>\<open>RETRY_DELAY\<close> between each two of them and not
  after the last, prints that it gives the page up and returns the empty list, which adds
  no row to the collection.
\<close>

theorem fetch_page_exhausted:
  assumes "\<forall>a \<in> {1..RETRY_LIMIT}. \<not> returns_rows (run_attempt str_of (net page a))"
  shows "fst (fetch_page str_of net page) = [] \<and>
    filter is_request_or_sleep (snd (fetch_page str_of net page)) =
      [EvRequest page, EvSleep RETRY_DELAY, EvRequest page, EvSleep RETRY_DELAY, EvRequest page] \<and>
    int (length (filter is_request (snd (fetch_page str_of net page)))) = RETRY_LIMIT \<and>
    last (snd (fetch_page str_of net page)) = EvGiveUp page \<and>
    rows (consume total_pages st (page, fst (fetch_page str_of net page))) = rows st"
proof -
  have f: "\<not> returns_rows (run_attempt str_of (net page 1))"
    "\<not> returns_rows (run_attempt str_of (net page 2))"
    "\<not> returns_rows (run_attempt str_of (net page 3))"
    using assms by (simp_all add: RETRY_LIMIT_def)
  have r: "fst (fetch_page str_of net page) = []"
    using f unfolding fetch_page_def attempts_list
    by (simp add: fetch_attempts_fst_failed [where responses = "net page"]
        del: fetch_attempts.simps(2))
  have t: "filter is_request_or_sleep (snd (fetch_page str_of net page)) =
      [EvRequest page, EvSleep RETRY_DELAY, EvRequest page, EvSleep RETRY_DELAY, EvRequest page]"
    using f unfolding fetch_page_def attempts_list
    by (simp add: fetch_attempts_snd_failed [where responses = "net page"] RETRY_LIMIT_def
        del: fetch_attempts.simps(2))
  have "filter is_request (snd (fetch_page str_of net page)) =
      filter is_request (filter is_request_or_sleep (snd (fetch_page str_of net page)))"
    by (simp add: filter_filter) (metis (mono_tags, lifting) is_request.elims(2) is_request_or_sleep.simps(1))
  then have n: "int (length (filter is_request (snd (fetch_page str_of net page)))) = RETRY_LIMIT"
    by (simp add: t RETRY_LIMIT_def)
  have l: "last (snd (fetch_page str_of net page)) = EvGiveUp page"
    using f unfolding fetch_page_def attempts_list
    by (cases "run_attempt str_of (net page 1)"; cases "run_attempt str_of (net page 2)";
        cases "run_attempt str_of (net page 3)") (simp_all add: split_beta)
  show ?thesis
    using r t n l by (simp add: consume_def Let_def)
qed

lemma fetch_page_net_down:
  "fetch_page no_text net_down 1 =
     ([], [EvAcquire, EvRequest 1, EvLogHttp 1 503 1, EvRelease, EvSleep 2,
           EvAcquire, EvRequest 1, EvLogError 1 TimeoutError 2, EvRelease, EvSleep 2,
           EvAcquire, EvRequest 1, EvLogHttp 1 503 3, EvRelease, EvGiveUp 1])"
  unfolding fetch_page_def attempts_list
  by (simp add: net_down_def RETRY_LIMIT_def RETRY_DELAY_def)

theorem fetch_page_exhausted_witness:
  "run_attempt no_text (net_down 1 1) = BadStatus 503 \<and>
   run_attempt no_text (net_down 1 2) = Raised TimeoutError \<and>
   run_attempt no_text (net_down 1 3) = BadStatus 503 \<and>
   fst (fetch_page no_text net_down 1) = [] \<and>
   filter is_request_or_sleep (snd (fetch_page no_text net_down 1)) =
     [EvRequest 1, EvSleep 2, EvRequest 1, EvSleep 2, EvRequest 1] \<and>
   last (snd (fetch_page no_text net_down 1)) = EvGiveUp 1"
proof -
  have h: "\<forall>a \<in> {1..RETRY_LIMIT}. \<not> returns_rows (run_attempt no_text (net_down 1 a))"
    by (simp add: net_down_def)
  show ?thesis
    using h fetch_page_exhausted [where str_of = no_text and net = net_down and page = 1]
    by (simp add: RETRY_DELAY_def net_down_def)
qed

text \<open>
  C4. When the attempts 1 to k for a page fail, with k below \<^verbatim>\<open>RETRY_LIMIT\<close>, and
  attempt k + 1 gets a response 200 whose body gives the rows \<open>rs\<close>, \<^verbatim>\<open>fetch_page\<close>
  returns \<open>rs\<close> after exactly k + 1 requests: the events of the task end with the
  request that succeeded and the exit from the semaphore.
\<close>

theorem fetch_page_succeeds_after_failures:
  assumes "0 \<le> k" and "k < RETRY_LIMIT"
    and "\<forall>a \<in> {1..k}. \<not> returns_rows (run_attempt str_of (net page a))"
    and "net page (k + 1) = HttpResp 200 (Inr data)"
    and "page_rows str_of data = Inr rs"
  shows "fst (fetch_page str_of net page) = rs \<and>
    length (filter is_request (snd (fetch_page str_of net page))) = nat (k + 1) \<and>
    filter is_request_or_sleep (snd (fetch_page str_of net page)) =
      concat (replicate (nat k) [EvRequest page, EvSleep RETRY_DELAY]) @ [EvRequest page] \<and>
    (\<exists>pre. snd (fetch_page str_of net page) = pre @ [EvAcquire, EvRequest page, EvRelease])"
proof -
  have ok: "run_attempt str_of (net page (k + 1)) = Rows rs"
    using assms(4,5) by simp
  from assms(1,2) consider "k = 0" | "k = 1" | "k = 2"
    unfolding RETRY_LIMIT_def by linarith
  then show ?thesis
  proof cases
    case 1
    with ok show ?thesis
      by (simp add: fetch_page_def attempts_list)
  next
    case 2
    with assms(3) have f: "\<not> returns_rows (run_attempt str_of (net page 1))" by simp
    from ok 2 have s: "run_attempt str_of (net page 2) = Rows rs" by simp
    show ?thesis
      using f s 2 unfolding fetch_page_def attempts_list
      by (cases "run_attempt str_of (net page 1)") (simp_all add: RETRY_LIMIT_def)
  next
    case 3
    with assms(3) have f: "\<not> returns_rows (run_attempt str_of (net page 1))"
      "\<not> returns_rows (run_attempt str_of (net page 2))" by simp_all
    from ok 3 have s: "run_attempt str_of (net page 3) = Rows rs" by simp
    show ?thesis
      using f s 3 unfolding fetch_page_def attempts_list
      by (cases "run_attempt str_of (net page 1)"; cases "run_attempt str_of (net page 2)")
         (simp_all add: RETRY_LIMIT_def numeral_2_eq_2)
  qed
qed

lemma page_rows_reduced:
  "page_rows no_text (PDict [(''products'', PList [reduced_item])]) =
     Inr [[(''id'', PInt 7), (''name'', PNone), (''brand'', PStr []), (''category_id'', PNone),
          (''category_name'', PStr []), (''status'', PNone), (''retail_price'', PInt 80),
          (''old_price'', PInt 100), (''discount_pct'', PFloat (Finite 20)),
          (''seller_name'', PStr []), (''seller_rating'', PNone), (''rating_value'', PNone),
          (''review_count'', PNone), (''in_stock'', PBool False),
          (''installment_enabled'', PBool False), (''max_installment_months'', PNone),
          (''image_url'', PStr []),
          (''product_url'', PStr ''https://birmarket.az/products/shirt'')]]"
  by (simp add: page_rows_def parse_reduced_item)

theorem fetch_page_succeeds_after_failures_witness:
  "(0::int) \<le> 2 \<and> 2 < RETRY_LIMIT \<and>
   run_attempt no_text (net_third 1 1) = BadStatus 500 \<and>
   run_attempt no_text (net_third 1 2) = BadStatus 500 \<and>
   net_third 1 (2 + 1) = HttpResp 200 (Inr (PDict [(''products'', PList [reduced_item])])) \<and>
   fst (fetch_page no_text net_third 1) =
     [[(''id'', PInt 7), (''name'', PNone), (''brand'', PStr []), (''category_id'', PNone),
       (''category_name'', PStr []), (''status'', PNone), (''retail_price'', PInt 80),
       (''old_price'', PInt 100), (''discount_pct'', PFloat (Finite 20)),
       (''seller_name'', PStr []), (''seller_rating'', PNone), (''rating_value'', PNone),
       (''review_count'', PNone), (''in_stock'', PBool False),
       (''installment_enabled'', PBool False), (''max_installment_months'', PNone),
       (''image_url'', PStr []),
       (''product_url'', PStr ''https://birmarket.az/products/shirt'')]] \<and>
   length (filter is_request (snd (fetch_page no_text net_third 1))) = 3"
proof -
  have h1: "(0::int) \<le> 2" and h2: "2 < RETRY_LIMIT"
    by (simp_all add: RETRY_LIMIT_def)
  have h3: "\<forall>a \<in> {1..2}. \<not> returns_rows (run_attempt no_text (net_third 1 a))"
    by (simp add: net_third_def)
  have h4: "net_third 1 (2 + 1) = HttpResp 200 (Inr (PDict [(''products'', PList [reduced_item])]))"
    by (simp add: net_third_def)
  show ?thesis
    using h1 h2 h3 h4 page_rows_reduced
      fetch_page_succeeds_after_failures [where k = 2 and str_of = no_text and net = net_third
        and page = 1 and data = "PDict [(''products'', PList [reduced_item])]"]
    by (simp add: net_third_def)
qed

lemma well_gated_fetch_attempts:
  "well_gated False (snd (fetch_attempts str_of responses page attempts))"
proof (induction attempts)
  case Nil
  show ?case by simp
next
  case (Cons a attempts)
  then show ?case
    by (cases "run_attempt str_of (responses a)") (simp_all add: split_beta)
qed

lemma prompt_release_fetch_attempts:
  "prompt_release (snd (fetch_attempts str_of responses page attempts))"
proof (induction attempts)
  case Nil
  show ?case by simp
next
  case (Cons a attempts)
  then show ?case
    by (cases "run_attempt str_of (responses a)") (simp_all add: split_beta)
qed

lemma sleeps_fetch_attempts:
  "EvSleep d \<in> set (snd (fetch_attempts str_of responses page attempts)) \<Longrightarrow> d = RETRY_DELAY"
proof (induction attempts)
  case Nil
  then show ?case by simp
next
  case (Cons a attempts)
  then show ?case
    by (cases "run_attempt str_of (responses a)") (auto simp: split_beta split: if_splits)
qed

lemma permits_append: "permits (xs @ ys) = permits xs + permits ys"
  by (induction xs rule: permits.induct) simp_all

lemma well_gated_append:
  "well_gated h (pre @ es) \<Longrightarrow>
   well_gated (permits pre + (if h then 1 else 0) = 1) es \<and>
   (permits pre + (if h then 1 else 0) = 0 \<or> permits pre + (if h then 1 else 0) = 1)"
proof (induction pre arbitrary: h)
  case Nil
  then show ?case by (cases h) simp_all
next
  case (Cons e pre)
  show ?case
  proof (cases e)
    case EvAcquire
    with Cons.prems have "\<not> h" "well_gated True (pre @ es)" by simp_all
    with Cons.IH [of True] EvAcquire show ?thesis by (simp add: add.commute)
  next
    case EvRelease
    with Cons.prems have "h" "well_gated False (pre @ es)" by simp_all
    with Cons.IH [of False] EvRelease show ?thesis by simp
  qed (use Cons.prems Cons.IH [of h] in \<open>auto split: if_splits\<close>)
qed

text \<open>
  C5. In the events of \<^verbatim>\<open>fetch_page\<close>, whatever the server does: the task enters the
  semaphore, requests, and leaves it at once or after the log line of the failed attempt;
  every sleep lasts \<^verbatim>\<open>RETRY_DELAY\<close> and begins when the task has left as often as it has
  entered, so that it holds no permit while it sleeps.
\<close>

theorem no_permit_while_sleeping:
  "well_gated False (snd (fetch_page str_of net page)) \<and>
   prompt_release (snd (fetch_page str_of net page)) \<and>
   (\<forall>pre d post. snd (fetch_page str_of net page) = pre @ EvSleep d # post \<longrightarrow>
      permits pre = 0 \<and> d = RETRY_DELAY)"
proof (intro conjI allI impI)
  show g: "well_gated False (snd (fetch_page str_of net page))"
    by (simp add: fetch_page_def well_gated_fetch_attempts)
  show "prompt_release (snd (fetch_page str_of net page))"
    by (simp add: fetch_page_def prompt_release_fetch_attempts)
  fix pre d post
  assume eq: "snd (fetch_page str_of net page) = pre @ EvSleep d # post"
  with g have "well_gated False (pre @ EvSleep d # post)" by simp
  from well_gated_append [OF this] show "permits pre = 0"
    by (auto split: if_splits)
  have "EvSleep d \<in> set (snd (fetch_page str_of net page))"
    by (simp add: eq)
  then show "d = RETRY_DELAY"
    unfolding fetch_page_def by (rule sleeps_fetch_attempts)
qed

theorem no_permit_while_sleeping_witness:
  "snd (fetch_page no_text net_down 1) =
     [EvAcquire, EvRequest 1, EvLogHttp 1 503 1, EvRelease] @ EvSleep 2 #
     [EvAcquire, EvRequest 1, EvLogError 1 TimeoutError 2, EvRelease, EvSleep 2,
      EvAcquire, EvRequest 1, EvLogHttp 1 503 3, EvRelease, EvGiveUp 1] \<and>
   permits [EvAcquire, EvRequest 1, EvLogHttp 1 503 1, EvRelease] = 0 \<and> 2 = RETRY_DELAY"
proof -
  have eq: "snd (fetch_page no_text net_down 1) =
     [EvAcquire, EvRequest 1, EvLogHttp 1 503 1, EvRelease] @ EvSleep 2 #
     [EvAcquire, EvRequest 1, EvLogError 1 TimeoutError 2, EvRelease, EvSleep 2,
      EvAcquire, EvRequest 1, EvLogHttp 1 503 3, EvRelease, EvGiveUp 1]"
    by (simp add: fetch_page_net_down)
  from no_permit_while_sleeping [of no_text net_down 1]
  have "\<forall>pre d post. snd (fetch_page no_text net_down 1) = pre @ EvSleep d # post \<longrightarrow>
      permits pre = 0 \<and> d = RETRY_DELAY"
    by blast
  from this [rule_format, OF eq] eq show ?thesis by blast
qed

text \<open>
  C9, as the specification words it, fails on a response 200 whose body is
  \<^verbatim>\<open>{"products": null}\<close>: the body is parsed, the loop over \<^verbatim>\<open>None\<close> raises
  \<^verbatim>\<open>TypeError\<close>, the handler takes it as a failed attempt, and the page is requested
  three times and given up.
\<close>

theorem null_products_counterexample:
  "run_attempt no_text (HttpResp 200 (Inr null_products)) = Raised TypeError \<and>
   fetch_page no_text net_null 1 =
     ([], [EvAcquire, EvRequest 1, EvLogError 1 TypeError 1, EvRelease, EvSleep 2,
           EvAcquire, EvRequest 1, EvLogError 1 TypeError 2, EvRelease, EvSleep 2,
           EvAcquire, EvRequest 1, EvLogError 1 TypeError 3, EvRelease, EvGiveUp 1])"
  unfolding fetch_page_def attempts_list
  by (simp add: net_null_def null_products_def page_rows_def RETRY_LIMIT_def RETRY_DELAY_def)

lemma map_result_length: "map_result f xs = Inr ys \<Longrightarrow> length ys = length xs"
proof (induction xs arbitrary: ys)
  case Nil
  then show ?case by simp
next
  case (Cons x xs)
  then show ?case by (auto simp: bindE_eq_Inr)
qed

text \<open>
  C9, as amended. In every attempt of \<^verbatim>\<open>fetch_page\<close>: a status other than 200, an
  exception of the request and a body that does not parse are failed attempts; a response
  200 whose body is a JSON object returns the empty list when the object has no
  \<^verbatim>\<open>products\<close>, and the parsed records when \<^verbatim>\<open>products\<close> is a list on whose items
  \<^verbatim>\<open>parse_product\<close> does not raise; an exception raised while the products are read is a
  failed attempt as well. A failed attempt raises nothing: the loop goes on to the
  attempts that remain.
\<close>

theorem attempt_classification:
  "(status \<noteq> 200 \<longrightarrow> run_attempt str_of (HttpResp status body) = BadStatus status) \<and>
   run_attempt str_of (HttpExn e) = Raised e \<and>
   run_attempt str_of (HttpResp 200 (Inl e)) = Raised e \<and>
   (map_of d ''products'' = None \<longrightarrow>
      run_attempt str_of (HttpResp 200 (Inr (PDict d))) = Rows []) \<and>
   (map_of d ''products'' = Some (PList ps) \<and> map_result (parse_product str_of) ps = Inr rs \<longrightarrow>
      run_attempt str_of (HttpResp 200 (Inr (PDict d))) = Rows rs \<and> length rs = length ps) \<and>
   (page_rows str_of data = Inl e \<longrightarrow>
      run_attempt str_of (HttpResp 200 (Inr data)) = Raised e) \<and>
   (\<not> returns_rows (run_attempt str_of (responses a)) \<longrightarrow>
      fst (fetch_attempts str_of responses page (a # rest)) =
      fst (fetch_attempts str_of responses page rest))"
  by (auto simp: page_rows_def dict_get_def map_result_length fetch_attempts_fst_failed
      simp del: fetch_attempts.simps)

theorem attempt_classification_witness:
  "run_attempt no_text (HttpResp 503 (Inl JSONDecodeError)) = BadStatus 503 \<and>
   map_of ([] :: (string \<times> pyval) list) ''products'' = None \<and>
   run_attempt no_text (HttpResp 200 (Inr (PDict []))) = Rows [] \<and>
   page_rows no_text null_products = Inl TypeError \<and>
   run_attempt no_text (HttpResp 200 (Inr null_products)) = Raised TypeError \<and>
   run_attempt no_text (net_down 1 1) = BadStatus 503 \<and>
   fst (fetch_attempts no_text (net_down 1) 1 [1, 2, 3]) =
   fst (fetch_attempts no_text (net_down 1) 1 [2, 3])"
proof -
  have p: "page_rows no_text null_products = Inl TypeError"
    by (simp add: page_rows_def null_products_def)
  have f: "\<not> returns_rows (run_attempt no_text (net_down 1 1))"
    by (simp add: net_down_def)
  show ?thesis
    using p f
      attempt_classification [where status = 503 and body = "Inl JSONDecodeError"
        and str_of = no_text and d = "[]" and data = null_products and e = TypeError
        and responses = "net_down 1" and a = 1 and page = 1 and rest = "[2, 3]"]
    by (simp add: net_down_def)
qed

section \<open>The concurrency gate\<close>

lemma permits_single: "e \<noteq> EvAcquire \<Longrightarrow> e \<noteq> EvRelease \<Longrightarrow> permits [e] = 0"
  by (cases e) simp_all

lemma sum_list_update_int:
  fixes xs :: "int list"
  shows "i < length xs \<Longrightarrow> sum_list (xs[i := y]) = sum_list xs - xs ! i + y"
proof (induction xs arbitrary: i)
  case Nil
  then show ?case by simp
next
  case (Cons x xs)
  then show ?case by (cases i) simp_all
qed

lemma outstanding_update:
  assumes "i < length (sched_tasks s)"
  shows "outstanding \<lparr>sem_value = v, sched_tasks = (sched_tasks s)[i := (d', r')]\<rparr> =
         outstanding s - permits (fst (sched_tasks s ! i)) + permits d'"
  using assms by (simp add: outstanding_def map_update sum_list_update_int)

lemma sched_step_balance:
  "int (sem_value (sched_step s i)) + outstanding (sched_step s i) =
   int (sem_value s) + outstanding s"
proof (cases "i < length (sched_tasks s)")
  case False
  then show ?thesis by (simp add: sched_step_def)
next
  case True
  obtain d r where t: "sched_tasks s ! i = (d, r)" by (cases "sched_tasks s ! i")
  show ?thesis
  proof (cases r)
    case Nil
    with True t show ?thesis by (simp add: sched_step_def)
  next
    case (Cons e r')
    consider "e = EvAcquire" "sem_value s = 0" | "e = EvAcquire" "0 < sem_value s"
      | "e = EvRelease" | "e \<noteq> EvAcquire" "e \<noteq> EvRelease"
      by auto
    then show ?thesis
    proof cases
      case 1
      with True t Cons show ?thesis by (simp add: sched_step_def)
    next
      case 2
      with True t Cons show ?thesis
        by (simp add: sched_step_def outstanding_update permits_append)
    next
      case 3
      with True t Cons show ?thesis
        by (simp add: sched_step_def outstanding_update permits_append)
    next
      case 4
      with True t Cons show ?thesis
        by (simp add: sched_step_def outstanding_update permits_append permits_single)
    qed
  qed
qed

lemma sched_step_tasks:
  assumes "\<forall>t \<in> set (sched_tasks s). well_gated False (fst t @ snd t)"
  shows "\<forall>t \<in> set (sched_tasks (sched_step s i)). well_gated False (fst t @ snd t)"
proof (cases "i < length (sched_tasks s)")
  case False
  with assms show ?thesis by (simp add: sched_step_def)
next
  case True
  obtain d r where t: "sched_tasks s ! i = (d, r)" by (cases "sched_tasks s ! i")
  from True t assms have g: "well_gated False (d @ r)"
    by (metis fst_conv nth_mem snd_conv)
  show ?thesis
  proof (cases r)
    case Nil
    with True t assms show ?thesis by (simp add: sched_step_def)
  next
    case (Cons e r')
    have "\<forall>u \<in> set ((sched_tasks s)[i := (d @ [e], r')]). well_gated False (fst u @ snd u)"
    proof
      fix u
      assume "u \<in> set ((sched_tasks s)[i := (d @ [e], r')])"
      then have "u = (d @ [e], r') \<or> u \<in> set (sched_tasks s)"
        by (meson insertE set_update_subset_insert subsetD)
      with g Cons assms show "well_gated False (fst u @ snd u)" by auto
    qed
    with True t Cons assms show ?thesis
      by (simp add: sched_step_def)
  qed
qed

lemma run_sched_balance:
  "int (sem_value (run_sched s schedule)) + outstanding (run_sched s schedule) =
   int (sem_value s) + outstanding s"
  unfolding run_sched_def
  by (induction schedule arbitrary: s) (simp_all add: sched_step_balance)

lemma run_sched_tasks:
  "\<forall>t \<in> set (sched_tasks s). well_gated False (fst t @ snd t) \<Longrightarrow>
   \<forall>t \<in> set (sched_tasks (run_sched s schedule)). well_gated False (fst t @ snd t)"
  unfolding run_sched_def
proof (induction schedule arbitrary: s)
  case Nil
  then show ?case by simp
next
  case (Cons i schedule)
  from Cons.IH [OF sched_step_tasks [OF Cons.prems]] show ?case by simp
qed

lemma sched_init_balance:
  "int (sem_value (sched_init str_of net total_pages)) +
   outstanding (sched_init str_of net total_pages) = int CONCURRENCY"
proof -
  have "sum_list (map (\<lambda>t. permits (fst t)) (map (\<lambda>page. ([], f page)) ps)) = 0"
    for f :: "int \<Rightarrow> event list" and ps
    by (induction ps) simp_all
  then show ?thesis
    by (simp add: sched_init_def outstanding_def)
qed

lemma sched_init_tasks:
  "\<forall>t \<in> set (sched_tasks (sched_init str_of net total_pages)). well_gated False (fst t @ snd t)"
  by (auto simp: sched_init_def fetch_page_def well_gated_fetch_attempts)

lemma well_gated_permits:
  assumes "well_gated False (d @ r)"
  shows "0 \<le> permits d" and "in_call d \<Longrightarrow> permits d = 1"
proof -
  from well_gated_append [OF assms] show "0 \<le> permits d" by auto
  assume "in_call d"
  then obtain d' p where d: "d = d' @ [EvRequest p]"
    unfolding in_call_def
    by (metis append_butlast_last_id is_request.elims(2))
  with assms have "well_gated False (d' @ (EvRequest p # r))" by simp
  from well_gated_append [OF this] have "permits d' = 1" by (auto split: if_splits)
  then show "permits d = 1" by (simp add: d permits_append)
qed

lemma count_le_sum:
  fixes f :: "'a \<Rightarrow> int"
  assumes "\<forall>t \<in> set ts. 0 \<le> f t \<and> (P t \<longrightarrow> f t = 1)"
  shows "int (length (filter P ts)) \<le> sum_list (map f ts)"
  using assms by (induction ts) auto

text \<open>
  C2. However the tasks of a run are interleaved, the permits acquired and not released
  never exceed \<^verbatim>\<open>CONCURRENCY\<close>, which is 20, and a task that is in its network call
  holds one of them: after every schedule the semaphore counter and the outstanding
  permits add up to \<^verbatim>\<open>CONCURRENCY\<close>.
\<close>

theorem permits_bounded:
  "int (sem_value (run_sched (sched_init str_of net total_pages) schedule)) +
     outstanding (run_sched (sched_init str_of net total_pages) schedule) = int CONCURRENCY \<and>
   outstanding (run_sched (sched_init str_of net total_pages) schedule) \<le> int CONCURRENCY \<and>
   0 \<le> outstanding (run_sched (sched_init str_of net total_pages) schedule) \<and>
   int (in_flight (run_sched (sched_init str_of net total_pages) schedule))
     \<le> outstanding (run_sched (sched_init str_of net total_pages) schedule) \<and>
   in_flight (run_sched (sched_init str_of net total_pages) schedule) \<le> 20"
proof -
  define s where "s = run_sched (sched_init str_of net total_pages) schedule"
  have b: "int (sem_value s) + outstanding s = int CONCURRENCY"
    unfolding s_def by (simp add: run_sched_balance sched_init_balance)
  have g: "\<forall>t \<in> set (sched_tasks s). well_gated False (fst t @ snd t)"
    unfolding s_def by (rule run_sched_tasks [OF sched_init_tasks])
  have "\<forall>t \<in> set (sched_tasks s). 0 \<le> permits (fst t) \<and> (in_call (fst t) \<longrightarrow> permits (fst t) = 1)"
    using g well_gated_permits by blast
  from count_le_sum [OF this] have f: "int (in_flight s) \<le> outstanding s"
    by (simp add: in_flight_def outstanding_def)
  have n: "0 \<le> outstanding s"
    using f by linarith
  from b have u: "outstanding s \<le> int CONCURRENCY" by linarith
  from f u have "in_flight s \<le> 20" by (simp add: CONCURRENCY_def)
  with b u n f show ?thesis unfolding s_def by simp
qed

text \<open>
  The gate at work: 21 pages, every task given one step. Twenty tasks enter, the counter
  is at zero, and the last task waits.
\<close>

lemma fetch_page_net_down_events:
  "snd (fetch_page no_text net_down page) =
     [EvAcquire, EvRequest page, EvLogHttp page 503 1, EvRelease, EvSleep 2,
      EvAcquire, EvRequest page, EvLogError page TimeoutError 2, EvRelease, EvSleep 2,
      EvAcquire, EvRequest page, EvLogHttp page 503 3, EvRelease, EvGiveUp page]"
  unfolding fetch_page_def attempts_list
  by (simp add: net_down_def RETRY_LIMIT_def RETRY_DELAY_def)

lemma semaphore_is_exhausted:
  "sem_value (run_sched (sched_init no_text net_down 21) [0..<21]) = 0 \<and>
   outstanding (run_sched (sched_init no_text net_down 21) [0..<21]) = 20 \<and>
   fst (sched_tasks (run_sched (sched_init no_text net_down 21) [0..<21]) ! 19) = [EvAcquire] \<and>
   fst (sched_tasks (run_sched (sched_init no_text net_down 21) [0..<21]) ! 20) = []"
  by (simp add: run_sched_def sched_init_def task_list_def py_range_def upto_rec1 upt_rec
      fetch_page_net_down_events sched_step_def CONCURRENCY_def outstanding_def)

section \<open>The orchestrator\<close>

lemma foldl_consume:
  "rows (foldl (consume total_pages) st xs) = rows st @ concat (map snd xs) \<and>
   done_count (foldl (consume total_pages) st xs) = done_count st + int (length xs) \<and>
   consumed (foldl (consume total_pages) st xs) = consumed st @ map fst xs"
  by (induction xs arbitrary: st) (simp_all add: consume_def Let_def)

lemma mset_concat_map_cong:
  "mset xs = mset ys \<Longrightarrow> mset (concat (map f xs)) = mset (concat (map f ys))"
  by (metis mset_concat mset_map sum_mset_sum_list)

text \<open>Every order of the tasks is the order of completion for some finishing times.\<close>

lemma as_completed_any_order:
  assumes "distinct order" and "mset order = mset tasks"
  shows "as_completed (\<lambda>page. length (takeWhile (\<lambda>q. q \<noteq> page) order)) tasks = order"
  unfolding as_completed_def
proof (rule sort_key_inj_key_eq)
  let ?f = "\<lambda>page. length (takeWhile (\<lambda>q. q \<noteq> page) order)"
  show "mset tasks = mset order" using assms(2) by simp
  have idx: "?f (order ! i) = i" if "i < length order" for i
  proof -
    have "takeWhile (\<lambda>q. q \<noteq> order ! i) order = take i order"
    proof (rule takeWhile_eq_take_P_nth)
      fix j
      assume "j < i" "j < length order"
      with that assms(1) show "order ! j \<noteq> order ! i"
        by (simp add: nth_eq_iff_index_eq)
    next
      show "\<not> order ! i \<noteq> order ! i" by simp
    qed
    with that show ?thesis by simp
  qed
  have s: "set tasks = set order" using assms(2) by (metis set_mset_mset)
  show "inj_on ?f (set tasks)"
    unfolding s
  proof (rule inj_onI)
    fix x y
    assume "x \<in> set order" "y \<in> set order" and eq: "?f x = ?f y"
    then obtain i j where "i < length order" "x = order ! i" "j < length order" "y = order ! j"
      by (metis in_set_conv_nth)
    with eq idx show "x = y" by simp
  qed
  have "map ?f order = [0..<length order]"
    by (rule nth_equalityI) (simp_all add: idx)
  then show "sorted (map ?f order)" by simp
qed

text \<open>
  C1. For every page count that is not negative, the task list has exactly one task for
  each page index from 1 to the count; whatever the order in which the tasks finish, the
  loop awaits each of them exactly once, \<^verbatim>\<open>done\<close> ends at the page count, and the
  rows are, up to their order, the rows of all pages.
\<close>

theorem orchestrate_complete:
  assumes "0 \<le> total_pages"
  shows "task_list total_pages = [1..total_pages] \<and>
    int (length (task_list total_pages)) = total_pages \<and>
    distinct (task_list total_pages) \<and>
    mset (consumed (orchestrate str_of net finish total_pages)) = mset (task_list total_pages) \<and>
    int (length (consumed (orchestrate str_of net finish total_pages))) = total_pages \<and>
    done_count (orchestrate str_of net finish total_pages) = total_pages \<and>
    mset (rows (orchestrate str_of net finish total_pages)) =
      mset (concat (map (\<lambda>page. fst (fetch_page str_of net page)) (task_list total_pages)))"
proof -
  have t: "task_list total_pages = [1..total_pages]"
    by (simp add: task_list_def py_range_def)
  have l: "int (length (task_list total_pages)) = total_pages"
    using assms by (simp add: t)
  let ?order = "as_completed finish (task_list total_pages)"
  have m: "mset ?order = mset (task_list total_pages)"
    by (simp add: as_completed_def)
  then have lo: "length ?order = length (task_list total_pages)"
    by (metis size_mset)
  have r: "rows (orchestrate str_of net finish total_pages) =
      concat (map (\<lambda>page. fst (fetch_page str_of net page)) ?order)"
    by (simp add: orchestrate_def foldl_consume comp_def)
  have c: "consumed (orchestrate str_of net finish total_pages) = ?order"
    by (simp add: orchestrate_def foldl_consume comp_def)
  have d: "done_count (orchestrate str_of net finish total_pages) = int (length ?order)"
    by (simp add: orchestrate_def foldl_consume)
  show ?thesis
    using t l m lo mset_concat_map_cong [OF m, of "\<lambda>page. fst (fetch_page str_of net page)"]
    by (simp add: r c d)
qed

theorem orchestrate_complete_witness:
  "(0::int) \<le> 3 \<and> task_list 3 = [1, 2, 3] \<and>
   consumed (orchestrate no_text net_down reverse_finish 3) = [3, 2, 1] \<and>
   done_count (orchestrate no_text net_down reverse_finish 3) = 3"
proof -
  have c: "consumed (orchestrate no_text net_down reverse_finish 3) = [3, 2, 1]"
    by (simp add: orchestrate_def consume_def Let_def task_list_def py_range_def
        as_completed_def reverse_finish_def upto_rec1)
  show ?thesis
    using c orchestrate_complete [of 3 no_text net_down reverse_finish]
    by (simp add: upto_rec1)
qed

section \<open>The page count request and the run\<close>

lemma get_total_pages_request:
  "snd (get_total_pages r) = [EvRequest 1] \<or>
   (\<exists>t p. snd (get_total_pages r) = [EvRequest 1, EvLogTotals t p])"
  by (auto simp: get_total_pages_def split: http_result.splits sum.splits)

text \<open>
  C8, as the specification words it, fails when the output directory cannot be made: the
  run aborts with status 1 before any page is fetched, although the page count request
  would have been answered.
\<close>

theorem no_directory_counterexample:
  "main env_no_directory = Inl (AtMkdir, OSError) \<and>
   exit_code (main env_no_directory) = 1 \<and>
   fst (get_total_pages (env_meta env_no_directory)) = Inr (PInt 1)"
  by (simp add: main_def env_no_directory_def exit_code_def get_total_pages_def meta_24_def
      pages_for_def PER_PAGE_def)

text \<open>
  C8, as amended. \<^verbatim>\<open>get_total_pages\<close> sends one request and does not retry. A transport
  error or a timeout, a body that does not parse, and a body without \<^verbatim>\<open>meta\<close> or
  \<^verbatim>\<open>meta.total\<close> leave it as an exception; every exception that leaves it leaves
  \<^verbatim>\<open>main\<close> too, and the process ends with status 1. Before the fetching begins the run
  aborts on that failure, on a failure to make the output directory, or on a page count
  that is not an integer, and on nothing else.
\<close>

theorem page_count_failure_aborts:
  "filter is_request (snd (get_total_pages r)) = [EvRequest 1] \<and>
   fst (get_total_pages (HttpExn e)) = Inl e \<and>
   fst (get_total_pages (HttpResp status (Inl e))) = Inl e \<and>
   (map_of d ''meta'' = None \<longrightarrow>
      fst (get_total_pages (HttpResp status (Inr (PDict d)))) = Inl KeyError) \<and>
   (map_of d ''meta'' = Some (PDict m) \<and> map_of m ''total'' = None \<longrightarrow>
      fst (get_total_pages (HttpResp status (Inr (PDict d)))) = Inl KeyError) \<and>
   (env_mkdir env = None \<and> fst (get_total_pages (env_meta env)) = Inl e \<longrightarrow>
      main env = Inl (AtGetTotalPages, e) \<and> exit_code (main env) = 1) \<and>
   (main env = Inl (st, e) \<and> st \<noteq> AtWriteCsv \<longrightarrow>
      (st = AtMkdir \<and> env_mkdir env = Some e) \<or>
      (st = AtGetTotalPages \<and> env_mkdir env = None \<and>
         fst (get_total_pages (env_meta env)) = Inl e) \<or>
      (st = AtTaskList \<and> e = TypeError \<and> env_mkdir env = None \<and>
         (\<exists>pages. fst (get_total_pages (env_meta env)) = Inr pages \<and> int_value pages = None)))"
proof (intro conjI impI)
  show "filter is_request (snd (get_total_pages r)) = [EvRequest 1]"
    using get_total_pages_request [of r] by auto
  show "fst (get_total_pages (HttpExn e)) = Inl e"
    by (simp add: get_total_pages_def)
  show "fst (get_total_pages (HttpResp status (Inl e))) = Inl e"
    by (simp add: get_total_pages_def)
  show "fst (get_total_pages (HttpResp status (Inr (PDict d)))) = Inl KeyError"
    if "map_of d ''meta'' = None"
    using that by (simp add: get_total_pages_def)
  show "fst (get_total_pages (HttpResp status (Inr (PDict d)))) = Inl KeyError"
    if "map_of d ''meta'' = Some (PDict m) \<and> map_of m ''total'' = None"
    using that by (simp add: get_total_pages_def)
  show "main env = Inl (AtGetTotalPages, e)"
    if "env_mkdir env = None \<and> fst (get_total_pages (env_meta env)) = Inl e"
    using that by (simp add: main_def)
  show "exit_code (main env) = 1"
    if "env_mkdir env = None \<and> fst (get_total_pages (env_meta env)) = Inl e"
    using that by (simp add: main_def exit_code_def)
  show "(st = AtMkdir \<and> env_mkdir env = Some e) \<or>
      (st = AtGetTotalPages \<and> env_mkdir env = None \<and>
         fst (get_total_pages (env_meta env)) = Inl e) \<or>
      (st = AtTaskList \<and> e = TypeError \<and> env_mkdir env = None \<and>
         (\<exists>pages. fst (get_total_pages (env_meta env)) = Inr pages \<and> int_value pages = None))"
    if "main env = Inl (st, e) \<and> st \<noteq> AtWriteCsv"
    using that
    by (auto simp: main_def Let_def split: option.splits sum.splits)
qed

theorem page_count_failure_aborts_witness:
  "map_of ([] :: (string \<times> pyval) list) ''meta'' = None \<and>
   env_mkdir env_no_meta = None \<and>
   fst (get_total_pages (env_meta env_no_meta)) = Inl KeyError \<and>
   main env_no_meta = Inl (AtGetTotalPages, KeyError) \<and>
   exit_code (main env_no_meta) = 1"
proof -
  have h: "env_mkdir env_no_meta = None \<and>
      fst (get_total_pages (env_meta env_no_meta)) = Inl KeyError"
    by (simp add: env_no_meta_def get_total_pages_def)
  show ?thesis
    using h page_count_failure_aborts [where env = env_no_meta and e = KeyError and d = "[]"
        and st = AtGetTotalPages]
    by (simp add: exit_code_def)
qed

end
